theory Spec2Isabelle
  imports Main "HOL-Library.Log_Nat"
begin

section \<open>Python floats\<close>

text \<open>
  The scoring code of \<^verbatim>\<open>app.py\<close> computes with Python floats, that is IEEE 754
  binary64 with round-to-nearest, ties-to-even. A finite float is represented by the
  rational number it denotes. Every arithmetic operation returns the exact result
  rounded to the nearest float, so one rounding function carries the whole model.

  \<^item> \<open>round_even\<close> rounds a rational to the nearest integer, ties to the even one.
  \<^item> \<open>ilog2 x\<close> is the binary exponent of a positive rational: \<open>2 ^ ilog2 x \<le> x < 2 ^ (ilog2 x + 1)\<close>.
  \<^item> \<open>ulp_exp x\<close> is the exponent of the unit in the last place at \<open>x\<close>: 53 significant
    bits, and no finer than \<open>2 ^ - 1074\<close> (subnormal numbers).
  \<^item> \<open>round_double x\<close> is the multiple of \<open>2 ^ ulp_exp x\<close> nearest to \<open>x\<close>. The exponent
    is not bounded above: a result of magnitude \<open>2 ^ 1024\<close> or more is an overflow, which
    the operations below treat as Python does.
\<close>

definition round_even :: "rat \<Rightarrow> int" where
  "round_even x =
     (let f = \<lfloor>x\<rfloor>; d = x - of_int f
      in if d < 1 / 2 then f
         else if 1 / 2 < d then f + 1
         else if even f then f else f + 1)"

definition ilog2 :: "rat \<Rightarrow> int" where
  "ilog2 x = (if 1 \<le> x then bitlen \<lfloor>x\<rfloor> - 1 else - bitlen (\<lceil>1 / x\<rceil> - 1))"

definition ulp_exp :: "rat \<Rightarrow> int" where
  "ulp_exp x = max (ilog2 \<bar>x\<bar> - 52) (- 1074)"

definition round_double :: "rat \<Rightarrow> rat" where
  "round_double x =
     (if x = 0 then 0
      else of_int (round_even (x / 2 powi ulp_exp x)) * 2 powi ulp_exp x)"

text \<open>
  The exceptions of the program: those of Python's arithmetic and dicts, those of the
  database driver (\<^verbatim>\<open>OperationalError\<close> and \<^verbatim>\<open>InterfaceError\<close> are the two that
  the health check catches; \<^verbatim>\<open>InFailedSqlTransaction\<close> is what a statement raises
  in a transaction that an earlier failure has aborted; \<^verbatim>\<open>DatabaseError\<close> stands for
  every other one), and \<^verbatim>\<open>RequestException\<close> for a failed or timed-out HTTP request.
\<close>

datatype py_error =
  KeyError | ZeroDivisionError | OverflowError
  | OperationalError | InterfaceError | InFailedSqlTransaction | DatabaseError
  | RequestException

text \<open>
  \<^verbatim>\<open>a / b\<close> on two Python ints is true division: the correctly rounded quotient,
  \<^verbatim>\<open>ZeroDivisionError\<close> for a zero divisor and \<^verbatim>\<open>OverflowError\<close> when the
  quotient is too large for a float.
\<close>

definition true_div :: "int \<Rightarrow> int \<Rightarrow> py_error + rat" where
  "true_div a b =
     (if b = 0 then Inl ZeroDivisionError
      else let r = round_double (of_int a / of_int b)
           in if 2 ^ 1024 \<le> \<bar>r\<bar> then Inl OverflowError else Inr r)"

text \<open>
  Float multiplication and addition never raise. A product that overflows is
  \<^verbatim>\<open>inf\<close> in Python; here it is the rounded value itself, which is at least
  \<open>2 ^ 1024\<close>. The only product of the program that can overflow is the argument of
  \<^verbatim>\<open>min(..., 100)\<close>, and that call returns 100 for \<^verbatim>\<open>inf\<close> as for any
  finite value above 100.
\<close>

definition fmul :: "rat \<Rightarrow> rat \<Rightarrow> rat" where
  "fmul x y = round_double (x * y)"

definition fadd :: "rat \<Rightarrow> rat \<Rightarrow> rat" where
  "fadd x y = round_double (x + y)"

text \<open>\<^verbatim>\<open>min(a, b)\<close> returns \<open>a\<close> unless \<open>b < a\<close>.\<close>

definition py_min :: "rat \<Rightarrow> rat \<Rightarrow> rat" where
  "py_min a b = (if b < a then b else a)"

section \<open>The category tables\<close>

text \<open>
  The nine category names are the keys of every table of the program. Seven of them are
  Korean in the source; the theory writes them in English, in the order of the source:
  \<^verbatim>\<open>QnA\<close>, workout guideline, diet guideline, philosophy, injury, feedback,
  meal examples, workout examples, tone. A Python dict is an association list in
  insertion order, looked up with \<open>map_of\<close>.
\<close>

definition categories :: "string list" where
  "categories =
     [''QnA'', ''workout guideline'', ''diet guideline'', ''philosophy'', ''injury'',
      ''feedback'', ''meal examples'', ''workout examples'', ''tone'']"

definition target_table :: "(string \<times> int) list" where
  "target_table =
     [(''QnA'', 60), (''workout guideline'', 30), (''diet guideline'', 20),
      (''philosophy'', 15), (''injury'', 12), (''feedback'', 10),
      (''meal examples'', 15), (''workout examples'', 20), (''tone'', 8)]"

text \<open>A float literal such as \<^verbatim>\<open>0.23\<close> denotes the float nearest to the decimal.\<close>

definition weights_table :: "(string \<times> rat) list" where
  "weights_table =
     [(''QnA'', round_double (23 / 100)), (''workout guideline'', round_double (18 / 100)),
      (''diet guideline'', round_double (13 / 100)), (''philosophy'', round_double (9 / 100)),
      (''injury'', round_double (9 / 100)), (''feedback'', round_double (4 / 100)),
      (''meal examples'', round_double (4 / 100)), (''workout examples'', round_double (10 / 100)),
      (''tone'', round_double (10 / 100))]"

definition target :: "string \<rightharpoonup> int" where
  "target = map_of target_table"

definition weights :: "string \<rightharpoonup> rat" where
  "weights = map_of weights_table"

section \<open>\<^verbatim>\<open>calculate_score\<close>\<close>

datatype tier = Gold | Silver | Bronze | Unrated

text \<open>
  One row of \<^verbatim>\<open>details\<close>. The source stores the achievement and the score as
  display strings (\<^verbatim>\<open>f"{achievement:.0f}%"\<close>, \<^verbatim>\<open>f"{score:.1f}/{weight*100:.0f}"\<close>);
  the record keeps the two floats that are displayed.
\<close>

record detail =
  d_category :: string
  d_current :: nat
  d_target :: int
  d_achievement :: rat
  d_score :: rat

record score_result =
  total_score :: rat
  tier :: tier
  tier_color :: string
  details :: "detail list"
  target_out :: "(string \<times> int) list"

text \<open>
  The loop over \<^verbatim>\<open>current_data.items()\<close>. A count is the result of
  \<^verbatim>\<open>COUNT(*)\<close> or 0, a natural number. \<^verbatim>\<open>target[category]\<close> and
  \<^verbatim>\<open>weights[category]\<close> raise \<^verbatim>\<open>KeyError\<close> for a key that is not in the table.
\<close>

fun score_loop ::
  "(string \<times> nat) list \<Rightarrow> rat \<Rightarrow> detail list \<Rightarrow> py_error + (rat \<times> detail list)" where
  "score_loop [] tot ds = Inr (tot, ds)"
| "score_loop ((category, current_count) # rest) tot ds =
     (case target category of
        None \<Rightarrow> Inl KeyError
      | Some target_count \<Rightarrow>
     (case weights category of
        None \<Rightarrow> Inl KeyError
      | Some weight \<Rightarrow>
     (case true_div (int current_count) target_count of
        Inl e \<Rightarrow> Inl e
      | Inr q \<Rightarrow>
          let achievement = py_min (fmul q 100) 100;
              score = fmul achievement weight
          in score_loop rest (fadd tot score)
               (ds @ [\<lparr>d_category = category, d_current = current_count,
                       d_target = target_count, d_achievement = achievement,
                       d_score = score\<rparr>]))))"

text \<open>The tier and its colour, decided by one \<^verbatim>\<open>if\<close>/\<^verbatim>\<open>elif\<close> chain.\<close>

definition tier_of :: "rat \<Rightarrow> tier \<times> string" where
  "tier_of tot =
     (if 85 \<le> tot then (Gold, ''#FFD700'')
      else if 75 \<le> tot then (Silver, ''#C0C0C0'')
      else if 60 \<le> tot then (Bronze, ''#CD7F32'')
      else (Unrated, ''#808080''))"

definition calculate_score :: "(string \<times> nat) list \<Rightarrow> py_error + score_result" where
  "calculate_score current_data =
     (case score_loop current_data 0 [] of
        Inl e \<Rightarrow> Inl e
      | Inr (tot, ds) \<Rightarrow>
          Inr \<lparr>total_score = tot, tier = fst (tier_of tot),
               tier_color = snd (tier_of tot), details = ds,
               target_out = target_table\<rparr>)"

section \<open>The scoring algorithm as specified\<close>

text \<open>
  The specification states the algorithm over a fixed configuration: the targets
  60, 30, 20, 15, 12, 10, 15, 20, 8 and the weights 0.23, 0.18, 0.13, 0.09, 0.09, 0.04,
  0.04, 0.10, 0.10, in category order; \<open>achievement = min(count / target * 100, 100)\<close>,
  \<open>categoryScore = achievement * weight\<close>, and the total is the sum of the category
  scores. The definitions below follow these words, in float arithmetic; the sum is
  taken from left to right, starting from 0.
\<close>

definition spec_targets :: "int list" where
  "spec_targets = [60, 30, 20, 15, 12, 10, 15, 20, 8]"

definition spec_weights :: "rat list" where
  "spec_weights =
     [23 / 100, 18 / 100, 13 / 100, 9 / 100, 9 / 100, 4 / 100, 4 / 100, 10 / 100, 10 / 100]"

definition spec_achievement :: "nat \<Rightarrow> int \<Rightarrow> rat" where
  "spec_achievement count tgt =
     min (fmul (round_double (of_nat count / of_int tgt)) 100) 100"

definition spec_category_score :: "rat \<Rightarrow> rat \<Rightarrow> rat" where
  "spec_category_score achievement w = fmul achievement (round_double w)"

text \<open>
  The weights in whole points, 100 times each weight. They are the largest score a
  category can contribute and serve to bound the total.
\<close>

definition points_table :: "(string \<times> int) list" where
  "points_table =
     [(''QnA'', 23), (''workout guideline'', 18), (''diet guideline'', 13),
      (''philosophy'', 9), (''injury'', 9), (''feedback'', 4),
      (''meal examples'', 4), (''workout examples'', 10), (''tone'', 10)]"

definition points :: "string \<Rightarrow> int" where
  "points k = (case map_of points_table k of Some p \<Rightarrow> p | None \<Rightarrow> 0)"

section \<open>The shortfall ranking of \<^verbatim>\<open>main\<close>\<close>

text \<open>
  One entry of \<^verbatim>\<open>needed_data\<close>. The source stores the shortfall as the display
  string \<^verbatim>\<open>f"+{needed}"\<close> followed by a counter word; the record keeps the number.
\<close>

record needed_item =
  n_category :: string
  n_needed :: int
  n_priority :: rat

text \<open>
  The loop over \<^verbatim>\<open>current_data.keys()\<close>. \<^verbatim>\<open>target\<close> is the table that
  \<^verbatim>\<open>calculate_score\<close> returned and \<^verbatim>\<open>weights_dict\<close> a second literal with the
  values of \<^verbatim>\<open>weights\<close>. A category is skipped unless it is a key of both.
\<close>

fun needed_loop ::
  "(string \<times> nat) list \<Rightarrow> needed_item list \<Rightarrow> py_error + needed_item list" where
  "needed_loop [] needed_data = Inr needed_data"
| "needed_loop ((category, current_count) # rest) needed_data =
     (case target category of
        None \<Rightarrow> needed_loop rest needed_data
      | Some target_count \<Rightarrow>
     (case weights category of
        None \<Rightarrow> needed_loop rest needed_data
      | Some weight \<Rightarrow>
          let needed = target_count - int current_count
          in if 0 < needed then
               (case true_div needed target_count of
                  Inl e \<Rightarrow> Inl e
                | Inr shortage_ratio \<Rightarrow>
                    needed_loop rest
                      (needed_data @ [\<lparr>n_category = category, n_needed = needed,
                         n_priority = fmul shortage_ratio weight\<rparr>]))
             else needed_loop rest needed_data))"

text \<open>
  \<^verbatim>\<open>needed_data.sort(key=..., reverse=True)\<close> sorts by descending key and is stable:
  entries with equal keys keep their order. Insertion sort on the negated key does the same.
\<close>

definition sort_reverse :: "needed_item list \<Rightarrow> needed_item list" where
  "sort_reverse needed_data = sort_key (\<lambda>x. - n_priority x) needed_data"

definition shortfall_ranking :: "(string \<times> nat) list \<Rightarrow> py_error + needed_item list" where
  "shortfall_ranking current_data =
     (case needed_loop current_data [] of
        Inl e \<Rightarrow> Inl e
      | Inr needed_data \<Rightarrow> Inr (sort_reverse needed_data))"

datatype flag = Urgent | Important

text \<open>
  The lines written for \<^verbatim>\<open>enumerate(needed_data[:5], 1)\<close>: the flag is urgent for
  positions 1 to 3 and important after.
\<close>

definition surfaced :: "needed_item list \<Rightarrow> (flag \<times> needed_item) list" where
  "surfaced needed_data =
     map (\<lambda>(i, item). (if i \<le> 3 then Urgent else Important, item))
       (zip [1 ..< Suc (length (take 5 needed_data))] (take 5 needed_data))"

text \<open>
  The ranking as specified: a category is in the ranking when its count is below its
  target, with \<open>priority = ((target - count) / target) * weight\<close>, the division and
  the product being those of floats.
\<close>

definition spec_priority :: "int \<Rightarrow> rat \<Rightarrow> nat \<Rightarrow> rat" where
  "spec_priority tgt w count = fmul (round_double (of_int (tgt - int count) / of_int tgt)) w"

definition spec_short :: "string \<times> nat \<Rightarrow> bool" where
  "spec_short kc =
     (case target (fst kc) of
        None \<Rightarrow> False
      | Some t \<Rightarrow> weights (fst kc) \<noteq> None \<and> int (snd kc) < t)"

definition spec_needed_item :: "string \<times> nat \<Rightarrow> needed_item" where
  "spec_needed_item kc =
     \<lparr>n_category = fst kc,
      n_needed = the (target (fst kc)) - int (snd kc),
      n_priority = spec_priority (the (target (fst kc))) (the (weights (fst kc))) (snd kc)\<rparr>"

text \<open>
  The same formula in exact arithmetic, for a weight given as a decimal fraction: what
  \<open>((target - count) / target) * weight\<close> is before any rounding.
\<close>

definition exact_priority :: "int \<Rightarrow> rat \<Rightarrow> nat \<Rightarrow> rat" where
  "exact_priority tgt w count = (of_int (tgt - int count) / of_int tgt) * w"

section \<open>The store, the read cache and the backend\<close>

text \<open>
  The database, Streamlit's caches and the analysis backend are outside the program.
  The model keeps what the program can observe of them in a \<open>world\<close> and lets an
  environment decide which calls fail:
  \<^item> \<open>committed\<close> holds the rows of each table, \<open>working\<close> what the open connection
    sees; a commit copies \<open>working\<close> to \<open>committed\<close>, a rollback copies it back;
  \<^item> \<open>conn_state\<close> is the state of that connection. The driver opens a transaction
    with the first statement and the program never sets autocommit, so a statement
    that fails leaves the transaction aborted: every later statement raises
    \<^verbatim>\<open>InFailedSqlTransaction\<close> until a rollback (or a commit, which the database
    then treats as a rollback). An \<^verbatim>\<open>OperationalError\<close> or \<^verbatim>\<open>InterfaceError\<close> is
    taken to be the loss of the connection: every later call on it raises
    \<^verbatim>\<open>InterfaceError\<close>;
  \<^item> \<open>db_log\<close> lists the calls made to the database, oldest first;
  \<^item> \<open>cache\<close> is the result cache of \<^verbatim>\<open>get_category_data\<close> (the only function under
    \<^verbatim>\<open>st.cache_data\<close>), keyed by its arguments; its 60 second expiry is not modelled;
  \<^item> \<open>conn_cached\<close> says that \<^verbatim>\<open>st.cache_resource\<close> holds a connection;
  \<^item> \<open>http_log\<close> lists the requests sent to the backend: trainer id and timeout.

  The environment gives, for the n-th call to the database (a connect, an execute or a
  commit), the exception it raises of its own if any (a missing table or column, a
  value of the wrong type, a timeout, a lost connection: the schema of the tables is not
  part of the source), and for the n-th request the backend's reply. Creating and
  closing a cursor, fetching and rolling back are taken not to fail.
\<close>

datatype pyval = Str string | StrList "string list"

record row =
  r_id :: nat
  r_fields :: "(string \<times> pyval) list"

datatype stmt =
  SelectOne
  | SelectCount string string
  | SelectRows string "string list" string
  | Insert string "string list" "pyval list"
  | Update string "(string \<times> pyval) list" nat
  | Delete string nat

datatype db_call = Connect | Execute stmt | Commit | Rollback

datatype http_outcome = Response nat string | HttpRaises

datatype conn_state = Usable | Aborted | Closed

record world =
  conn_cached :: bool
  conn_state :: conn_state
  committed :: "string \<Rightarrow> row list"
  working :: "string \<Rightarrow> row list"
  next_id :: nat
  db_log :: "db_call list"
  cache :: "((string \<times> string) \<times> row list) list"
  http_log :: "(string \<times> nat) list"

record env =
  db_fault :: "nat \<Rightarrow> py_error option"
  http_reply :: "nat \<Rightarrow> http_outcome"

text \<open>
  What a statement does to the rows the connection sees. The database rejects an
  \<^verbatim>\<open>INSERT\<close> whose column list and value list differ in length and an
  \<^verbatim>\<open>UPDATE\<close> with an empty \<^verbatim>\<open>SET\<close> clause.
\<close>

definition owned_by :: "string \<Rightarrow> row \<Rightarrow> bool" where
  "owned_by trainer_id r = (map_of (r_fields r) ''trainer_id'' = Some (Str trainer_id))"

fun set_fields :: "(string \<times> pyval) list \<Rightarrow> (string \<times> pyval) list \<Rightarrow> (string \<times> pyval) list" where
  "set_fields [] fs = fs"
| "set_fields ((c, v) # assigns) fs =
     set_fields assigns ((c, v) # filter (\<lambda>(c', v'). c' \<noteq> c) fs)"

fun malformed :: "stmt \<Rightarrow> bool" where
  "malformed (Insert t cols vals) = (length cols \<noteq> length vals)"
| "malformed (Update t assigns i) = (assigns = [])"
| "malformed s = False"

fun apply_stmt :: "stmt \<Rightarrow> world \<Rightarrow> world" where
  "apply_stmt (Insert t cols vals) w =
     w\<lparr>working := (working w)(t := working w t @ [\<lparr>r_id = next_id w, r_fields = zip cols vals\<rparr>]),
       next_id := Suc (next_id w)\<rparr>"
| "apply_stmt (Update t assigns i) w =
     w\<lparr>working := (working w)(t :=
         map (\<lambda>r. if r_id r = i then r\<lparr>r_fields := set_fields assigns (r_fields r)\<rparr> else r)
           (working w t))\<rparr>"
| "apply_stmt (Delete t i) w =
     w\<lparr>working := (working w)(t := filter (\<lambda>r. r_id r \<noteq> i) (working w t))\<rparr>"
| "apply_stmt s w = w"

definition after_error :: "py_error \<Rightarrow> conn_state" where
  "after_error err = (if err = OperationalError \<or> err = InterfaceError then Closed else Aborted)"

definition execute :: "env \<Rightarrow> world \<Rightarrow> stmt \<Rightarrow> (py_error + unit) \<times> world" where
  "execute e w s =
     (let w' = w\<lparr>db_log := db_log w @ [Execute s]\<rparr>
      in case conn_state w of
           Closed \<Rightarrow> (Inl InterfaceError, w')
         | Aborted \<Rightarrow> (Inl InFailedSqlTransaction, w')
         | Usable \<Rightarrow>
             (case db_fault e (length (db_log w)) of
                Some err \<Rightarrow> (Inl err, w'\<lparr>conn_state := after_error err\<rparr>)
              | None \<Rightarrow>
                  if malformed s then (Inl DatabaseError, w'\<lparr>conn_state := Aborted\<rparr>)
                  else (Inr (), apply_stmt s w')))"

definition commit :: "env \<Rightarrow> world \<Rightarrow> (py_error + unit) \<times> world" where
  "commit e w =
     (let w' = w\<lparr>db_log := db_log w @ [Commit]\<rparr>
      in case conn_state w of
           Closed \<Rightarrow> (Inl InterfaceError, w')
         | Aborted \<Rightarrow> (Inr (), w'\<lparr>working := committed w', conn_state := Usable\<rparr>)
         | Usable \<Rightarrow>
             (case db_fault e (length (db_log w)) of
                Some err \<Rightarrow> (Inl err, w'\<lparr>conn_state := after_error err\<rparr>)
              | None \<Rightarrow> (Inr (), w'\<lparr>committed := working w'\<rparr>)))"

definition rollback :: "world \<Rightarrow> world" where
  "rollback w =
     w\<lparr>working := committed w, db_log := db_log w @ [Rollback],
       conn_state := (if conn_state w = Closed then Closed else Usable)\<rparr>"

text \<open>
  \<^verbatim>\<open>get_db_connection\<close> is cached by \<^verbatim>\<open>st.cache_resource\<close>: it connects only
  when no connection is cached. A new connection is usable and sees the committed rows.
\<close>

definition get_db_connection :: "env \<Rightarrow> world \<Rightarrow> (py_error + unit) \<times> world" where
  "get_db_connection e w =
     (if conn_cached w then (Inr (), w)
      else let w' = w\<lparr>db_log := db_log w @ [Connect]\<rparr>
           in case db_fault e (length (db_log w)) of
                Some err \<Rightarrow> (Inl err, w')
              | None \<Rightarrow>
                  (Inr (), w'\<lparr>conn_cached := True, conn_state := Usable,
                             working := committed w'\<rparr>))"

text \<open>
  \<^verbatim>\<open>get_safe_connection\<close>: the first \<^verbatim>\<open>get_db_connection()\<close> is outside the
  \<^verbatim>\<open>try\<close>; the health check catches the two connection errors only, clears the
  resource cache and connects again.
\<close>

definition get_safe_connection :: "env \<Rightarrow> world \<Rightarrow> (py_error + unit) \<times> world" where
  "get_safe_connection e w =
     (case get_db_connection e w of
        (Inl err, w1) \<Rightarrow> (Inl err, w1)
      | (Inr u, w1) \<Rightarrow>
          (case execute e w1 SelectOne of
             (Inr u', w2) \<Rightarrow> (Inr (), w2)
           | (Inl err, w2) \<Rightarrow>
               if err = OperationalError \<or> err = InterfaceError
               then get_db_connection e (w2\<lparr>conn_cached := False\<rparr>)
               else (Inl err, w2)))"

text \<open>The table of each category, as every function of the program declares it.\<close>

definition tables :: "(string \<times> string) list" where
  "tables =
     [(''QnA'', ''data_trainer_qna''),
      (''workout guideline'', ''data_trainer_workout_guideline''),
      (''diet guideline'', ''data_trainer_diet_guideline''),
      (''philosophy'', ''data_trainer_philosophy''),
      (''injury'', ''data_trainer_injury''),
      (''feedback'', ''data_trainer_feedback''),
      (''meal examples'', ''data_trainer_meal_examples''),
      (''workout examples'', ''data_trainer_workout_examples''),
      (''tone'', ''data_trainer_tones_raw'')]"

definition fetch_count :: "world \<Rightarrow> string \<Rightarrow> string \<Rightarrow> nat" where
  "fetch_count w t trainer_id = length (filter (owned_by trainer_id) (working w t))"

subsection \<open>\<^verbatim>\<open>get_current_data\<close>\<close>

text \<open>
  The loop over \<^verbatim>\<open>tables.items()\<close>: a count query that raises leaves 0 for its
  category and the loop goes on.
\<close>

fun count_loop ::
  "env \<Rightarrow> world \<Rightarrow> string \<Rightarrow> (string \<times> string) list \<Rightarrow> (string \<times> nat) list
     \<Rightarrow> (string \<times> nat) list \<times> world" where
  "count_loop e w trainer_id [] data = (data, w)"
| "count_loop e w trainer_id ((name, t) # rest) data =
     (case execute e w (SelectCount t trainer_id) of
        (Inr u, w') \<Rightarrow>
          count_loop e w' trainer_id rest (data @ [(name, fetch_count w' t trainer_id)])
      | (Inl err, w') \<Rightarrow> count_loop e w' trainer_id rest (data @ [(name, 0)]))"

text \<open>
  The outer \<^verbatim>\<open>try\<close> has a \<^verbatim>\<open>finally\<close> and no \<^verbatim>\<open>except\<close>: an exception of
  \<^verbatim>\<open>get_safe_connection\<close> leaves the function.
\<close>

definition get_current_data ::
  "env \<Rightarrow> world \<Rightarrow> string \<Rightarrow> (py_error + (string \<times> nat) list) \<times> world" where
  "get_current_data e w trainer_id =
     (case get_safe_connection e w of
        (Inl err, w1) \<Rightarrow> (Inl err, w1)
      | (Inr u, w1) \<Rightarrow>
          (case count_loop e w1 trainer_id tables [] of (data, w2) \<Rightarrow> (Inr data, w2)))"

subsection \<open>\<^verbatim>\<open>get_category_data\<close>\<close>

definition category_columns :: "(string \<times> string list) list" where
  "category_columns =
     [(''QnA'', [''id'', ''question'', ''answer'', ''category'', ''risk_level'', ''created_at'']),
      (''workout guideline'', [''id'', ''title'', ''content'', ''category'', ''created_at'']),
      (''diet guideline'', [''id'', ''title'', ''content'', ''category'', ''created_at'']),
      (''philosophy'', [''id'', ''content'', ''category'', ''created_at'']),
      (''injury'', [''id'', ''title'', ''content'', ''body_part'', ''risk_level'', ''keywords'',
         ''created_at'']),
      (''feedback'', [''id'', ''user_goal'', ''title'', ''content'', ''category'', ''keywords'',
         ''created_at'']),
      (''meal examples'', [''id'', ''title'', ''content'', ''category'', ''created_at'']),
      (''workout examples'', [''id'', ''title'', ''content'', ''category'', ''user_level'',
         ''created_at'']),
      (''tone'', [''id'', ''trainer_name'', ''raw_data'', ''created_at''])]"

text \<open>
  The body of \<^verbatim>\<open>get_category_data\<close>: everything is inside the \<^verbatim>\<open>try\<close>, and every
  exception gives the empty frame. The rows come newest first.
\<close>

definition get_category_data_body ::
  "env \<Rightarrow> world \<Rightarrow> string \<Rightarrow> string \<Rightarrow> row list \<times> world" where
  "get_category_data_body e w trainer_id category =
     (case get_safe_connection e w of
        (Inl err, w1) \<Rightarrow> ([], w1)
      | (Inr u, w1) \<Rightarrow>
          (case (map_of tables category, map_of category_columns category) of
             (Some t, Some columns) \<Rightarrow>
               (case execute e w1 (SelectRows t columns trainer_id) of
                  (Inl err, w2) \<Rightarrow> ([], w2)
                | (Inr u', w2) \<Rightarrow> (rev (filter (owned_by trainer_id) (working w2 t)), w2))
           | other \<Rightarrow> ([], w1)))"

text \<open>
  Under \<^verbatim>\<open>st.cache_data\<close>: a call with cached arguments returns the cached frame and
  does not run the body; otherwise the body runs and its result is cached.
\<close>

definition get_category_data ::
  "env \<Rightarrow> world \<Rightarrow> string \<Rightarrow> string \<Rightarrow> row list \<times> world" where
  "get_category_data e w trainer_id category =
     (case map_of (cache w) (trainer_id, category) of
        Some rows \<Rightarrow> (rows, w)
      | None \<Rightarrow>
          (case get_category_data_body e w trainer_id category of
             (rows, w') \<Rightarrow> (rows, w'\<lparr>cache := cache w' @ [((trainer_id, category), rows)]\<rparr>)))"

subsection \<open>\<^verbatim>\<open>delete_data\<close> and \<^verbatim>\<open>update_data\<close>\<close>

text \<open>
  The messages are Korean sentences in the source; a constructor stands for each, with
  the text of the exception or of the response where the source inserts it.
\<close>

datatype message =
  InvalidCategory
  | Deleted | DeleteFailed py_error
  | Updated | UpdateFailed py_error
  | Added | AddFailed py_error
  | ToneAddedAnalyzed | ToneSavedAnalysisFailed string | ToneSavedCallFailed py_error
  | ToneAnalyzed | ToneAnalysisFailed string | ToneRequestError py_error

definition delete_data ::
  "env \<Rightarrow> world \<Rightarrow> string \<Rightarrow> nat \<Rightarrow> (py_error + bool \<times> message) \<times> world" where
  "delete_data e w category data_id =
     (case get_safe_connection e w of
        (Inl err, w1) \<Rightarrow> (Inl err, w1)
      | (Inr u, w1) \<Rightarrow>
          (case map_of tables category of
             None \<Rightarrow> (Inr (False, InvalidCategory), w1)
           | Some t \<Rightarrow>
               (case execute e w1 (Delete t data_id) of
                  (Inl err, w2) \<Rightarrow> (Inr (False, DeleteFailed err), rollback w2)
                | (Inr u', w2) \<Rightarrow>
                    (case commit e w2 of
                       (Inl err, w3) \<Rightarrow> (Inr (False, DeleteFailed err), rollback w3)
                     | (Inr u'', w3) \<Rightarrow> (Inr (True, Deleted), w3\<lparr>cache := []\<rparr>)))))"

definition update_data ::
  "env \<Rightarrow> world \<Rightarrow> string \<Rightarrow> nat \<Rightarrow> (string \<times> pyval) list
     \<Rightarrow> (py_error + bool \<times> message) \<times> world" where
  "update_data e w category data_id updated_fields =
     (case get_safe_connection e w of
        (Inl err, w1) \<Rightarrow> (Inl err, w1)
      | (Inr u, w1) \<Rightarrow>
          (case map_of tables category of
             None \<Rightarrow> (Inr (False, InvalidCategory), w1)
           | Some t \<Rightarrow>
               (case execute e w1 (Update t updated_fields data_id) of
                  (Inl err, w2) \<Rightarrow> (Inr (False, UpdateFailed err), rollback w2)
                | (Inr u', w2) \<Rightarrow>
                    (case commit e w2 of
                       (Inl err, w3) \<Rightarrow> (Inr (False, UpdateFailed err), rollback w3)
                     | (Inr u'', w3) \<Rightarrow> (Inr (True, Updated), w3\<lparr>cache := []\<rparr>)))))"

subsection \<open>\<^verbatim>\<open>trigger_tone_analyze\<close>\<close>

text \<open>
  One \<^verbatim>\<open>POST /admin/analyze_tone\<close> with the trainer id and a timeout in seconds. A
  request that fails or times out raises.
\<close>

definition post_analyze_tone :: "env \<Rightarrow> world \<Rightarrow> string \<Rightarrow> nat \<Rightarrow> http_outcome \<times> world" where
  "post_analyze_tone e w trainer_id timeout =
     (http_reply e (length (http_log w)), w\<lparr>http_log := http_log w @ [(trainer_id, timeout)]\<rparr>)"

definition trigger_tone_analyze :: "env \<Rightarrow> world \<Rightarrow> string \<Rightarrow> (bool \<times> message) \<times> world" where
  "trigger_tone_analyze e w trainer_id =
     (case post_analyze_tone e w trainer_id 15 of
        (Response status_code text, w') \<Rightarrow>
          if status_code = 200 then ((True, ToneAnalyzed), w')
          else ((False, ToneAnalysisFailed text), w')
      | (HttpRaises, w') \<Rightarrow> ((False, ToneRequestError RequestException), w'))"

subsection \<open>\<^verbatim>\<open>add_data\<close>\<close>

text \<open>
  \<^verbatim>\<open>data_dict\<close> maps field names to the strings of the form. \<^verbatim>\<open>data_dict[k]\<close>
  raises \<^verbatim>\<open>KeyError\<close> for a missing key; \<^verbatim>\<open>data_dict.get(k, d)\<close> does not.
  \<^verbatim>\<open>s.split(',')\<close> and \<^verbatim>\<open>s.strip()\<close> are Python's.
\<close>

definition subscript :: "(string \<times> string) list \<Rightarrow> string \<Rightarrow> py_error + string" where
  "subscript data_dict k = (case map_of data_dict k of None \<Rightarrow> Inl KeyError | Some v \<Rightarrow> Inr v)"

definition get_default :: "(string \<times> string) list \<Rightarrow> string \<Rightarrow> string \<Rightarrow> string" where
  "get_default data_dict k d = (case map_of data_dict k of None \<Rightarrow> d | Some v \<Rightarrow> v)"

fun split_on :: "char \<Rightarrow> string \<Rightarrow> string list" where
  "split_on c [] = [[]]"
| "split_on c (x # xs) =
     (if x = c then [] # split_on c xs
      else case split_on c xs of [] \<Rightarrow> [[x]] | p # ps \<Rightarrow> (x # p) # ps)"

definition is_space :: "char \<Rightarrow> bool" where
  "is_space c = (c \<in> set [CHR '' '', CHR 0x09, CHR 0x0A, CHR 0x0B, CHR 0x0C, CHR 0x0D,
                           CHR 0x1C, CHR 0x1D, CHR 0x1E, CHR 0x1F, CHR 0x85, CHR 0xA0])"

definition strip :: "string \<Rightarrow> string" where
  "strip s = rev (dropWhile is_space (rev (dropWhile is_space s)))"

text \<open>
  The \<^verbatim>\<open>INSERT\<close> of each branch of the \<^verbatim>\<open>if\<close>/\<^verbatim>\<open>elif\<close> chain but the last, with
  its column list and its values (parameters and literals) in order. \<open>required\<close> reads
  \<^verbatim>\<open>data_dict[k]\<close> and passes the value on, or stops with the \<^verbatim>\<open>KeyError\<close>.
\<close>

definition required ::
  "(string \<times> string) list \<Rightarrow> string \<Rightarrow> (string \<Rightarrow> py_error + 'a) \<Rightarrow> py_error + 'a" where
  "required data_dict k f = (case subscript data_dict k of Inl err \<Rightarrow> Inl err | Inr v \<Rightarrow> f v)"

definition insert_qna :: "string \<Rightarrow> (string \<times> string) list \<Rightarrow> py_error + stmt" where
  "insert_qna trainer_id data_dict =
     required data_dict ''question'' (\<lambda>question.
     required data_dict ''answer'' (\<lambda>answer.
       Inr (Insert ''data_trainer_qna''
         [''trainer_id'', ''question'', ''answer'', ''category'', ''risk_level'', ''language'']
         [Str trainer_id, Str question, Str answer, StrList [''general''],
          Str (get_default data_dict ''risk_level'' ''low''), Str ''ko''])))"

definition insert_guideline ::
  "string \<Rightarrow> string \<Rightarrow> string \<Rightarrow> (string \<times> string) list \<Rightarrow> py_error + stmt" where
  "insert_guideline t tag trainer_id data_dict =
     required data_dict ''title'' (\<lambda>title.
     required data_dict ''content'' (\<lambda>content.
       Inr (Insert t
         [''trainer_id'', ''title'', ''content'', ''category'', ''language'']
         [Str trainer_id, Str title, Str content, StrList [tag], Str ''ko''])))"

definition insert_philosophy :: "string \<Rightarrow> (string \<times> string) list \<Rightarrow> py_error + stmt" where
  "insert_philosophy trainer_id data_dict =
     required data_dict ''content'' (\<lambda>content.
       Inr (Insert ''data_trainer_philosophy''
         [''trainer_id'', ''content'', ''category'', ''language'']
         [Str trainer_id, Str content, StrList [''mindset''], Str ''ko'']))"

definition insert_injury :: "string \<Rightarrow> (string \<times> string) list \<Rightarrow> py_error + stmt" where
  "insert_injury trainer_id data_dict =
     required data_dict ''title'' (\<lambda>title.
     required data_dict ''content'' (\<lambda>content.
     required data_dict ''body_part'' (\<lambda>body_part.
       Inr (Insert ''data_trainer_injury''
         [''trainer_id'', ''title'', ''content'', ''body_part'', ''risk_level'', ''keywords'',
          ''language'']
         [Str trainer_id, Str title, Str content, StrList [body_part],
          Str (get_default data_dict ''risk_level'' ''medium''),
          StrList (if get_default data_dict ''keywords'' [] \<noteq> []
                   then split_on CHR '','' (get_default data_dict ''keywords'' [])
                   else []),
          Str ''ko'']))))"

definition insert_feedback :: "string \<Rightarrow> (string \<times> string) list \<Rightarrow> py_error + stmt" where
  "insert_feedback trainer_id data_dict =
     (let keywords_list =
            filter (\<lambda>k. k \<noteq> [])
              (map strip (split_on CHR '','' (get_default data_dict ''keywords'' [])))
      in required data_dict ''title'' (\<lambda>title.
         required data_dict ''content'' (\<lambda>content.
         required data_dict ''feedback_type'' (\<lambda>feedback_type.
           Inr (Insert ''data_trainer_feedback''
             [''trainer_id'', ''user_goal'', ''title'', ''content'', ''category'', ''keywords'',
              ''language'']
             [Str trainer_id, Str (get_default data_dict ''user_goal'' []), Str title,
              Str content, StrList [feedback_type], StrList keywords_list, Str ''ko''])))))"

text \<open>The statement for meal examples names five columns and gives six values.\<close>

definition insert_meal_example :: "string \<Rightarrow> (string \<times> string) list \<Rightarrow> py_error + stmt" where
  "insert_meal_example trainer_id data_dict =
     required data_dict ''title'' (\<lambda>title.
     required data_dict ''content'' (\<lambda>content.
     required data_dict ''meal_type'' (\<lambda>meal_type.
       Inr (Insert ''data_trainer_meal_examples''
         [''trainer_id'', ''title'', ''content'', ''category'', ''language'']
         [Str trainer_id, Str title, Str content, StrList [meal_type],
          Str (get_default data_dict ''user_level'' ''beginner''), Str ''ko'']))))"

definition insert_workout_example :: "string \<Rightarrow> (string \<times> string) list \<Rightarrow> py_error + stmt" where
  "insert_workout_example trainer_id data_dict =
     required data_dict ''title'' (\<lambda>title.
     required data_dict ''content'' (\<lambda>content.
     required data_dict ''workout_type'' (\<lambda>workout_type.
       Inr (Insert ''data_trainer_workout_examples''
         [''trainer_id'', ''title'', ''content'', ''category'', ''user_level'', ''language'']
         [Str trainer_id, Str title, Str content, StrList [workout_type],
          Str (get_default data_dict ''user_level'' ''beginner''), Str ''ko'']))))"

text \<open>
  The chain itself, in the order of the source; \<open>None\<close> when the category is that of
  the last branch (tone samples, below) or when no branch matches: the chain has no
  \<^verbatim>\<open>else\<close>.
\<close>

definition insert_statement ::
  "string \<Rightarrow> string \<Rightarrow> (string \<times> string) list \<Rightarrow> (py_error + stmt) option" where
  "insert_statement trainer_id category data_dict =
     (if category = ''QnA'' then Some (insert_qna trainer_id data_dict)
      else if category = ''workout guideline'' then
        Some (insert_guideline ''data_trainer_workout_guideline'' ''exercise'' trainer_id data_dict)
      else if category = ''diet guideline'' then
        Some (insert_guideline ''data_trainer_diet_guideline'' ''diet'' trainer_id data_dict)
      else if category = ''philosophy'' then Some (insert_philosophy trainer_id data_dict)
      else if category = ''injury'' then Some (insert_injury trainer_id data_dict)
      else if category = ''feedback'' then Some (insert_feedback trainer_id data_dict)
      else if category = ''meal examples'' then Some (insert_meal_example trainer_id data_dict)
      else if category = ''workout examples'' then
        Some (insert_workout_example trainer_id data_dict)
      else None)"

text \<open>
  The branch for tone samples: insert, commit, then the analysis request with a timeout
  of 30 seconds inside its own \<^verbatim>\<open>try\<close>; each of its three ways out returns
  \<^verbatim>\<open>True\<close>. An exception before the request goes to the handler of \<^verbatim>\<open>add_data\<close>.
\<close>

definition add_tone ::
  "env \<Rightarrow> world \<Rightarrow> string \<Rightarrow> (string \<times> string) list \<Rightarrow> (bool \<times> message) \<times> world" where
  "add_tone e w1 trainer_id data_dict =
     (case subscript data_dict ''raw_data'' of
        Inl err \<Rightarrow> ((False, AddFailed err), rollback w1)
      | Inr raw_data \<Rightarrow>
          (case execute e w1 (Insert ''data_trainer_tones_raw''
                  [''trainer_id'', ''trainer_name'', ''raw_data'']
                  [Str trainer_id, Str (get_default data_dict ''trainer_name'' []), Str raw_data]) of
             (Inl err, w2) \<Rightarrow> ((False, AddFailed err), rollback w2)
           | (Inr u, w2) \<Rightarrow>
               (case commit e w2 of
                  (Inl err, w3) \<Rightarrow> ((False, AddFailed err), rollback w3)
                | (Inr u', w3) \<Rightarrow>
                    (case post_analyze_tone e w3 trainer_id 30 of
                       (Response status_code text, w4) \<Rightarrow>
                         if status_code = 200 then ((True, ToneAddedAnalyzed), w4)
                         else ((True, ToneSavedAnalysisFailed text), w4)
                     | (HttpRaises, w4) \<Rightarrow>
                         ((True, ToneSavedCallFailed RequestException), w4)))))"

text \<open>
  \<^verbatim>\<open>add_data\<close>: the connection is taken outside the \<^verbatim>\<open>try\<close>. After the chain the
  function commits and returns \<^verbatim>\<open>True\<close>, also when no branch has matched. The handler
  rolls back and returns \<^verbatim>\<open>False\<close>. The function never touches \<^verbatim>\<open>st.cache_data\<close>.
\<close>

definition add_data ::
  "env \<Rightarrow> world \<Rightarrow> string \<Rightarrow> string \<Rightarrow> (string \<times> string) list
     \<Rightarrow> (py_error + bool \<times> message) \<times> world" where
  "add_data e w trainer_id category data_dict =
     (case get_safe_connection e w of
        (Inl err, w1) \<Rightarrow> (Inl err, w1)
      | (Inr u, w1) \<Rightarrow>
          (case insert_statement trainer_id category data_dict of
             Some (Inl err) \<Rightarrow> (Inr (False, AddFailed err), rollback w1)
           | Some (Inr s) \<Rightarrow>
               (case execute e w1 s of
                  (Inl err, w2) \<Rightarrow> (Inr (False, AddFailed err), rollback w2)
                | (Inr u', w2) \<Rightarrow>
                    (case commit e w2 of
                       (Inl err, w3) \<Rightarrow> (Inr (False, AddFailed err), rollback w3)
                     | (Inr u'', w3) \<Rightarrow> (Inr (True, Added), w3)))
           | None \<Rightarrow>
               if category = ''tone'' then
                 (case add_tone e w1 trainer_id data_dict of (res, w') \<Rightarrow> (Inr res, w'))
               else
                 (case commit e w1 of
                    (Inl err, w3) \<Rightarrow> (Inr (False, AddFailed err), rollback w3)
                  | (Inr u'', w3) \<Rightarrow> (Inr (True, Added), w3))))"

section \<open>Example worlds and environments\<close>

text \<open>
  A process that has just started, a world with a cached connection and three rows of
  trainer \<^verbatim>\<open>tr_001\<close> (two questions, one philosophy note), and four environments: one
  where nothing fails, one where the database cannot be reached, one where the third
  database call fails (from \<open>sample_world\<close>: the count query for workout guidelines,
  after the health check and the count query for QnA), one where the backend
  answers 204 with an empty body, and one where the request to the backend raises.
\<close>

definition fresh_world :: world where
  "fresh_world =
     \<lparr>conn_cached = False, conn_state = Closed, committed = (\<lambda>t. []), working = (\<lambda>t. []), next_id = 1,
      db_log = [], cache = [], http_log = []\<rparr>"

definition sample_rows :: "string \<Rightarrow> row list" where
  "sample_rows t =
     (if t = ''data_trainer_qna'' then
        [\<lparr>r_id = 1, r_fields = [(''trainer_id'', Str ''tr_001''), (''question'', Str ''q1''),
            (''answer'', Str ''a1'')]\<rparr>,
         \<lparr>r_id = 2, r_fields = [(''trainer_id'', Str ''tr_001''), (''question'', Str ''q2''),
            (''answer'', Str ''a2'')]\<rparr>]
      else if t = ''data_trainer_philosophy'' then
        [\<lparr>r_id = 3, r_fields = [(''trainer_id'', Str ''tr_001''), (''content'', Str ''c'')]\<rparr>]
      else [])"

definition sample_world :: world where
  "sample_world =
     \<lparr>conn_cached = True, conn_state = Usable, committed = sample_rows, working = sample_rows, next_id = 4,
      db_log = [], cache = [], http_log = []\<rparr>"

definition healthy_env :: env where
  "healthy_env = \<lparr>db_fault = (\<lambda>n. None), http_reply = (\<lambda>n. Response 200 ''ok'')\<rparr>"

definition unreachable_env :: env where
  "unreachable_env =
     \<lparr>db_fault = (\<lambda>n. Some OperationalError), http_reply = (\<lambda>n. Response 200 ''ok'')\<rparr>"

definition third_call_fails_env :: env where
  "third_call_fails_env =
     \<lparr>db_fault = (\<lambda>n. if n = 2 then Some DatabaseError else None),
      http_reply = (\<lambda>n. Response 200 ''ok'')\<rparr>"

definition reply_204_env :: env where
  "reply_204_env = \<lparr>db_fault = (\<lambda>n. None), http_reply = (\<lambda>n. Response 204 [])\<rparr>"

definition backend_down_env :: env where
  "backend_down_env = \<lparr>db_fault = (\<lambda>n. None), http_reply = (\<lambda>n. HttpRaises)\<rparr>"

text \<open>
  The sample world after the philosophy notes of the trainer have been listed (the
  listing is now cached), and after a note has then been added.
\<close>

definition listed_world :: world where
  "listed_world = snd (get_category_data healthy_env sample_world ''tr_001'' ''philosophy'')"

definition added_world :: world where
  "added_world =
     snd (add_data healthy_env listed_world ''tr_001'' ''philosophy'' [(''content'', ''c2'')])"

section \<open>Properties of rounding\<close>

lemma ilog2_bounds:
  assumes "0 < x"
  shows "2 powi (ilog2 x) \<le> x \<and> x < 2 powi (ilog2 x + 1)"
proof (cases "1 \<le> x")
  case True
  define n where "n = \<lfloor>x\<rfloor>"
  have n1: "1 \<le> n" using True by (simp add: n_def)
  then have npos: "0 < n" by simp
  have bl: "1 \<le> bitlen n" using npos by (simp add: bitlen_alt_def)
  have il: "ilog2 x = bitlen n - 1" using True by (simp add: ilog2_def n_def)
  from bitlen_bounds [OF npos]
  have b1: "2 ^ nat (bitlen n - 1) \<le> n" and b2: "n < 2 ^ nat (bitlen n)" by simp_all
  have p1: "(2::rat) powi (bitlen n - 1) = of_int (2 ^ nat (bitlen n - 1))"
    using bl by (simp add: power_int_def)
  have p2: "(2::rat) powi (bitlen n - 1 + 1) = of_int (2 ^ nat (bitlen n))"
    using bl by (simp add: power_int_def)
  have "(of_int (2 ^ nat (bitlen n - 1)) :: rat) \<le> of_int n"
    using b1 by (simp only: of_int_le_iff)
  also have "\<dots> \<le> x" by (simp add: n_def)
  finally have lo: "2 powi (ilog2 x) \<le> x" by (simp only: il p1)
  have "n + 1 \<le> 2 ^ nat (bitlen n)" using b2 by simp
  then have "(of_int (n + 1) :: rat) \<le> of_int (2 ^ nat (bitlen n))"
    by (simp only: of_int_le_iff)
  moreover have "x < of_int (n + 1)" using floor_correct [of x] by (simp add: n_def)
  ultimately have hi: "x < 2 powi (ilog2 x + 1)" by (simp only: il p2)
  from lo hi show ?thesis ..
next
  case False
  define y where "y = 1 / x"
  define m where "m = \<lceil>y\<rceil> - 1"
  from False assms have y1: "1 < y" by (simp add: y_def)
  then have "1 < \<lceil>y\<rceil>" by (simp add: less_ceiling_iff)
  then have mpos: "0 < m" by (simp add: m_def)
  have my1: "of_int m < y" using ceiling_correct [of y] by (simp add: m_def)
  have my2: "y \<le> of_int (m + 1)" using ceiling_correct [of y] by (simp add: m_def)
  have bl: "1 \<le> bitlen m" using mpos by (simp add: bitlen_alt_def)
  have il: "ilog2 x = - bitlen m" using False by (simp add: ilog2_def m_def y_def)
  from bitlen_bounds [OF mpos]
  have b1: "2 ^ nat (bitlen m - 1) \<le> m" and b2: "m < 2 ^ nat (bitlen m)" by simp_all
  have ypos: "0 < y" using y1 by simp
  have "m + 1 \<le> 2 ^ nat (bitlen m)" using b2 by simp
  then have "(of_int (m + 1) :: rat) \<le> of_int (2 ^ nat (bitlen m))"
    by (simp only: of_int_le_iff)
  with my2 have yle: "y \<le> 2 ^ nat (bitlen m)" by simp
  have p1: "(2::rat) powi (- bitlen m) = 1 / 2 ^ nat (bitlen m)"
    using bl by (simp add: power_int_def field_simps)
  have "1 / 2 ^ nat (bitlen m) \<le> 1 / y"
    using yle ypos by (simp add: frac_le)
  then have lo: "2 powi (ilog2 x) \<le> x"
    by (simp only: il p1 y_def) (simp add: assms)
  have "(2::rat) ^ nat (bitlen m - 1) = of_int (2 ^ nat (bitlen m - 1))" by simp
  also have "\<dots> \<le> of_int m" using b1 by (simp only: of_int_le_iff)
  also have "\<dots> < y" by (rule my1)
  finally have ygt: "2 ^ nat (bitlen m - 1) < y" .
  have p2: "(2::rat) powi (- bitlen m + 1) = 1 / 2 ^ nat (bitlen m - 1)"
  proof (cases "bitlen m = 1")
    case True then show ?thesis by simp
  next
    case False
    with bl have "- bitlen m + 1 < 0" by simp
    then show ?thesis using bl by (simp add: power_int_def field_simps nat_diff_distrib)
  qed
  have "1 / y < 1 / 2 ^ nat (bitlen m - 1)"
    using ygt ypos by (simp add: frac_less2)
  then have hi: "x < 2 powi (ilog2 x + 1)"
    by (simp only: il p2 y_def) (simp add: assms)
  from lo hi show ?thesis ..
qed

lemma ilog2_mono:
  assumes "0 < x" "x \<le> y"
  shows "ilog2 x \<le> ilog2 y"
proof (rule ccontr)
  assume "\<not> ilog2 x \<le> ilog2 y"
  then have "ilog2 y + 1 \<le> ilog2 x" by simp
  then have "(2::rat) powi (ilog2 y + 1) \<le> 2 powi (ilog2 x)"
    by (intro power_int_increasing) simp_all
  moreover have "y < 2 powi (ilog2 y + 1)" using ilog2_bounds [of y] assms by simp
  moreover have "2 powi (ilog2 x) \<le> x" using ilog2_bounds [of x] assms by simp
  ultimately show False using assms by simp
qed

lemma round_even_of_int: "round_even (of_int n) = n"
  by (simp add: round_even_def)

lemma round_even_range:
  "\<lfloor>x\<rfloor> \<le> round_even x \<and> round_even x \<le> \<lfloor>x\<rfloor> + 1"
  by (simp add: round_even_def Let_def)

lemma round_even_mono:
  assumes "x \<le> y"
  shows "round_even x \<le> round_even y"
proof (cases "\<lfloor>x\<rfloor> = \<lfloor>y\<rfloor>")
  case True
  then have "x - of_int \<lfloor>x\<rfloor> \<le> y - of_int \<lfloor>y\<rfloor>" using assms by simp
  then show ?thesis using True by (auto simp add: round_even_def Let_def)
next
  case False
  have "\<lfloor>x\<rfloor> \<le> \<lfloor>y\<rfloor>" using assms by (rule floor_mono)
  with False have "\<lfloor>x\<rfloor> + 1 \<le> \<lfloor>y\<rfloor>" by simp
  then show ?thesis
    using round_even_range [of x] round_even_range [of y] by linarith
qed

lemma round_even_le_int: "x \<le> of_int n \<Longrightarrow> round_even x \<le> n"
  using round_even_mono [of x "of_int n"] by (simp add: round_even_of_int)

lemma round_even_ge_int: "of_int n \<le> x \<Longrightarrow> n \<le> round_even x"
  using round_even_mono [of "of_int n" x] by (simp add: round_even_of_int)

lemma pow2_pos: "0 < (2::rat) powi e"
  by (simp add: zero_less_power_int)

lemma round_double_le_multiple:
  assumes "x \<noteq> 0" "x \<le> of_int n * 2 powi ulp_exp x"
  shows "round_double x \<le> of_int n * 2 powi ulp_exp x"
proof -
  have "x / 2 powi ulp_exp x \<le> of_int n"
    using assms(2) pow2_pos [of "ulp_exp x"] by (simp add: pos_divide_le_eq)
  then have "round_even (x / 2 powi ulp_exp x) \<le> n" by (rule round_even_le_int)
  then have "(of_int (round_even (x / 2 powi ulp_exp x)) :: rat) \<le> of_int n"
    by (simp only: of_int_le_iff)
  then show ?thesis
    using assms(1) pow2_pos [of "ulp_exp x"] by (simp add: round_double_def)
qed

lemma round_double_ge_multiple:
  assumes "x \<noteq> 0" "of_int n * 2 powi ulp_exp x \<le> x"
  shows "of_int n * 2 powi ulp_exp x \<le> round_double x"
proof -
  have "of_int n \<le> x / 2 powi ulp_exp x"
    using assms(2) pow2_pos [of "ulp_exp x"] by (simp add: pos_le_divide_eq)
  then have "n \<le> round_even (x / 2 powi ulp_exp x)" by (rule round_even_ge_int)
  then have "(of_int n :: rat) \<le> of_int (round_even (x / 2 powi ulp_exp x))"
    by (simp only: of_int_le_iff)
  then show ?thesis
    using assms(1) pow2_pos [of "ulp_exp x"] by (simp add: round_double_def)
qed

lemma round_double_nonneg: "0 \<le> x \<Longrightarrow> 0 \<le> round_double x"
  using round_double_ge_multiple [of x 0] by (cases "x = 0") (simp_all add: round_double_def)

lemma ulp_exp_mono: "0 < x \<Longrightarrow> x \<le> y \<Longrightarrow> ulp_exp x \<le> ulp_exp y"
  using ilog2_mono [of x y] by (simp add: ulp_exp_def)

lemma pow2_multiple:
  assumes "j \<le> k"
  shows "(2::rat) powi k = of_int (2 ^ nat (k - j)) * 2 powi j"
proof -
  have "(2::rat) powi k = 2 powi ((k - j) + j)" by simp
  also have "\<dots> = 2 powi (k - j) * 2 powi j" by (rule power_int_add) simp
  also have "2 powi (k - j) = (of_int (2 ^ nat (k - j)) :: rat)"
    using assms by (simp add: power_int_def)
  finally show ?thesis .
qed

lemma round_double_mono_pos:
  assumes "0 < x" "x \<le> y"
  shows "round_double x \<le> round_double y"
proof (cases "ulp_exp x = ulp_exp y")
  case True
  have ypos: "0 < y" using assms by simp
  have "x / 2 powi ulp_exp y \<le> y / 2 powi ulp_exp y"
    using assms(2) pow2_pos [of "ulp_exp y"] by (simp add: divide_right_mono)
  then have "round_even (x / 2 powi ulp_exp y) \<le> round_even (y / 2 powi ulp_exp y)"
    by (rule round_even_mono)
  then have "(of_int (round_even (x / 2 powi ulp_exp y)) :: rat)
               \<le> of_int (round_even (y / 2 powi ulp_exp y))"
    by (simp only: of_int_le_iff)
  then show ?thesis
    using assms ypos True pow2_pos [of "ulp_exp y"] by (simp add: round_double_def)
next
  case False
  have ypos: "0 < y" using assms by simp
  have le: "ulp_exp x \<le> ulp_exp y" using assms by (rule ulp_exp_mono)
  with False have lt: "ulp_exp x < ulp_exp y" by simp
  have ex: "- 1074 \<le> ulp_exp x" by (simp add: ulp_exp_def)
  from lt ex have ey: "ulp_exp y = ilog2 y - 52"
    using ypos by (simp add: ulp_exp_def max_def split: if_splits)
  have ix: "ilog2 x - 52 \<le> ulp_exp x" using assms(1) by (simp add: ulp_exp_def)
  from lt ey ix have il: "ilog2 x + 1 \<le> ilog2 y" by simp
  define b :: rat where "b = 2 powi (ilog2 y)"
  have "x < 2 powi (ilog2 x + 1)" using ilog2_bounds [OF assms(1)] by simp
  also have "\<dots> \<le> b" unfolding b_def using il by (intro power_int_increasing) simp_all
  finally have xb: "x \<le> b" by simp
  have b_le_y: "b \<le> y" unfolding b_def using ilog2_bounds [OF ypos] by simp
  have jx: "ulp_exp x \<le> ilog2 y" using lt ey by simp
  have bx: "b = of_int (2 ^ nat (ilog2 y - ulp_exp x)) * 2 powi ulp_exp x"
    unfolding b_def using jx by (rule pow2_multiple)
  have jy: "ulp_exp y \<le> ilog2 y" using ey by simp
  have byy: "b = of_int (2 ^ nat (ilog2 y - ulp_exp y)) * 2 powi ulp_exp y"
    unfolding b_def using jy by (rule pow2_multiple)
  have "round_double x \<le> b"
    using round_double_le_multiple [of x "2 ^ nat (ilog2 y - ulp_exp x)"] assms(1) xb bx
    by simp
  moreover have "b \<le> round_double y"
    using round_double_ge_multiple [of y "2 ^ nat (ilog2 y - ulp_exp y)"] ypos b_le_y byy
    by simp
  ultimately show ?thesis by simp
qed

lemma round_double_mono:
  assumes "0 \<le> x" "x \<le> y"
  shows "round_double x \<le> round_double y"
proof (cases "x = 0")
  case True
  then show ?thesis using assms round_double_nonneg [of y] by (simp add: round_double_def)
next
  case False
  then show ?thesis using assms round_double_mono_pos [of x y] by simp
qed

lemma ilog2_less:
  assumes "0 < x" "x < 2 powi k"
  shows "ilog2 x < k"
proof (rule ccontr)
  assume "\<not> ilog2 x < k"
  then have "k \<le> ilog2 x" by simp
  then have "(2::rat) powi k \<le> 2 powi (ilog2 x)"
    by (intro power_int_increasing) simp_all
  moreover have "2 powi (ilog2 x) \<le> x" using ilog2_bounds [OF assms(1)] by simp
  ultimately show False using assms(2) by simp
qed

lemma ulp_exp_nonpos:
  assumes "0 < x" "x < 2 ^ 53"
  shows "ulp_exp x \<le> 0"
proof -
  have "x < 2 powi 53" using assms(2) by simp
  then have "ilog2 x < 53" using assms(1) by (rule ilog2_less [rotated])
  then show ?thesis using assms(1) by (simp add: ulp_exp_def)
qed

lemma int_multiple:
  assumes "e \<le> 0"
  shows "(of_int n :: rat) = of_int (n * 2 ^ nat (- e)) * 2 powi e"
proof -
  define k where "k = nat (- e)"
  have e: "e = - int k" using assms by (simp add: k_def)
  have p: "(2::rat) powi e = inverse (2 ^ k)"
    unfolding e by (simp add: power_int_minus)
  have "(of_int (n * 2 ^ k) :: rat) * inverse (2 ^ k) = of_int n * (2 ^ k * inverse (2 ^ k))"
    by (simp add: mult.assoc)
  also have "\<dots> = of_int n" by simp
  finally show ?thesis unfolding p k_def [symmetric] by simp
qed

lemma round_double_le_int:
  assumes "0 \<le> x" "x \<le> of_int n" "n < 2 ^ 53"
  shows "round_double x \<le> of_int n"
proof (cases "x = 0")
  case True
  have "(0::rat) \<le> of_int n" using assms(1,2) by (rule order_trans)
  then show ?thesis using True by (simp add: round_double_def)
next
  case False
  with assms(1) have pos: "0 < x" by simp
  have "(of_int n :: rat) < of_int (2 ^ 53)" using assms(3) by (simp only: of_int_less_iff)
  with assms(2) have "x < of_int (2 ^ 53)" by (rule le_less_trans)
  then have "x < 2 ^ 53" by simp
  with pos have e: "ulp_exp x \<le> 0" by (rule ulp_exp_nonpos)
  have m: "(of_int n :: rat) = of_int (n * 2 ^ nat (- ulp_exp x)) * 2 powi ulp_exp x"
    using e by (rule int_multiple)
  have "round_double x \<le> of_int (n * 2 ^ nat (- ulp_exp x)) * 2 powi ulp_exp x"
    using False assms(2) unfolding m by (rule round_double_le_multiple)
  then show ?thesis unfolding m [symmetric] .
qed

lemma round_double_le_pow2:
  assumes "0 < x" "x \<le> 2 powi k" "- 1074 \<le> k"
  shows "round_double x \<le> 2 powi k"
proof -
  have "(2::rat) powi k < 2 powi (k + 1)"
    by (intro power_int_strict_increasing) simp_all
  with assms(2) have "x < 2 powi (k + 1)" by (rule le_less_trans)
  with assms(1) have "ilog2 x < k + 1" by (rule ilog2_less)
  then have e: "ulp_exp x \<le> k" using assms(1,3) by (simp add: ulp_exp_def)
  have m: "(2::rat) powi k = of_int (2 ^ nat (k - ulp_exp x)) * 2 powi ulp_exp x"
    using e by (rule pow2_multiple)
  have nz: "x \<noteq> 0" using assms(1) by simp
  have "round_double x \<le> of_int (2 ^ nat (k - ulp_exp x)) * 2 powi ulp_exp x"
    using nz assms(2) unfolding m by (rule round_double_le_multiple)
  then show ?thesis unfolding m [symmetric] .
qed

lemma true_div_ok:
  assumes "2 \<le> b" "a < 2 ^ 1024"
  shows "true_div (int a) b = Inr (round_double (of_nat a / of_int b))"
    and "0 \<le> round_double (of_nat a / of_int b)"
proof -
  let ?x = "of_nat a / of_int b :: rat"
  have bpos: "(0::rat) < of_int b" using assms(1) by simp
  have x0: "0 \<le> ?x" using bpos by simp
  then show r0: "0 \<le> round_double ?x" by (rule round_double_nonneg)
  have "(of_nat a :: rat) < of_nat (2 ^ 1024)" using assms(2) by (simp only: of_nat_less_iff)
  then have a: "(of_nat a :: rat) < 2 ^ 1024" by simp
  have "(2::rat) \<le> of_int b" using assms(1) by (metis of_int_le_iff of_int_numeral)
  then have "?x \<le> of_nat a / 2" by (intro frac_le) simp_all
  also have "\<dots> < 2 ^ 1024 / 2" using a by (simp only: divide_strict_right_mono zero_less_numeral)
  also have "\<dots> = 2 powi 1023" by simp
  finally have xk: "?x \<le> 2 powi 1023" by simp
  have "round_double ?x \<le> 2 powi 1023"
  proof (cases "?x = 0")
    case True
    then show ?thesis by (simp add: round_double_def)
  next
    case False
    with x0 have "0 < ?x" by (metis less_le)
    then show ?thesis using xk by (rule round_double_le_pow2) simp
  qed
  also have "(2::rat) powi 1023 < 2 powi 1024"
    by (intro power_int_strict_increasing) simp_all
  finally have "round_double ?x < 2 ^ 1024" by simp
  then have "\<not> 2 ^ 1024 \<le> \<bar>round_double ?x\<bar>" using r0 by simp
  moreover have "b \<noteq> 0" using assms(1) by simp
  ultimately show "true_div (int a) b = Inr (round_double ?x)"
    by (simp add: true_div_def Let_def)
qed

section \<open>Properties of the scoring loop\<close>

lemma target_simps:
  "target ''QnA'' = Some 60" "target ''workout guideline'' = Some 30"
  "target ''diet guideline'' = Some 20" "target ''philosophy'' = Some 15"
  "target ''injury'' = Some 12" "target ''feedback'' = Some 10"
  "target ''meal examples'' = Some 15" "target ''workout examples'' = Some 20"
  "target ''tone'' = Some 8"
  by (simp_all add: target_def target_table_def)

lemma weights_simps:
  "weights ''QnA'' = Some (round_double (23 / 100))"
  "weights ''workout guideline'' = Some (round_double (18 / 100))"
  "weights ''diet guideline'' = Some (round_double (13 / 100))"
  "weights ''philosophy'' = Some (round_double (9 / 100))"
  "weights ''injury'' = Some (round_double (9 / 100))"
  "weights ''feedback'' = Some (round_double (4 / 100))"
  "weights ''meal examples'' = Some (round_double (4 / 100))"
  "weights ''workout examples'' = Some (round_double (10 / 100))"
  "weights ''tone'' = Some (round_double (10 / 100))"
  by (simp_all add: weights_def weights_table_def)

lemma py_min_eq: "py_min a b = min a b"
  by (simp add: py_min_def min_def)

lemma score_step:
  assumes "target k = Some t" "weights k = Some w" "2 \<le> t" "c < 2 ^ 1024"
  shows "score_loop ((k, c) # rest) tot ds =
           score_loop rest (fadd tot (fmul (spec_achievement c t) w))
             (ds @ [\<lparr>d_category = k, d_current = c, d_target = t,
                     d_achievement = spec_achievement c t,
                     d_score = fmul (spec_achievement c t) w\<rparr>])"
  using assms true_div_ok(1) [of t c]
  by (simp add: Let_def py_min_eq spec_achievement_def)

lemma length9:
  "length ns = 9 \<Longrightarrow> \<exists>a b c d e f g h i. ns = [a, b, c, d, e, f, g, h, i]"
  by (auto simp add: numeral_eq_Suc length_Suc_conv)

lemma calculate_score_nine:
  assumes "\<forall>c \<in> set [c1, c2, c3, c4, c5, c6, c7, c8, c9]. c < 2 ^ 1024"
  shows "\<exists>r. calculate_score (zip categories [c1, c2, c3, c4, c5, c6, c7, c8, c9]) = Inr r
     \<and> map d_category (details r) = categories
     \<and> map d_current (details r) = [c1, c2, c3, c4, c5, c6, c7, c8, c9]
     \<and> map d_target (details r) = spec_targets
     \<and> map d_achievement (details r) = map2 spec_achievement [c1, c2, c3, c4, c5, c6, c7, c8, c9] spec_targets
     \<and> map d_score (details r) = map2 spec_category_score (map d_achievement (details r)) spec_weights
     \<and> total_score r = foldl fadd 0 (map d_score (details r))"
proof -
  have b: "c1 < 2 ^ 1024" "c2 < 2 ^ 1024" "c3 < 2 ^ 1024" "c4 < 2 ^ 1024" "c5 < 2 ^ 1024"
    "c6 < 2 ^ 1024" "c7 < 2 ^ 1024" "c8 < 2 ^ 1024" "c9 < 2 ^ 1024"
    using assms by simp_all
  note st = score_step [OF target_simps(1) weights_simps(1) _ b(1)]
    score_step [OF target_simps(2) weights_simps(2) _ b(2)]
    score_step [OF target_simps(3) weights_simps(3) _ b(3)]
    score_step [OF target_simps(4) weights_simps(4) _ b(4)]
    score_step [OF target_simps(5) weights_simps(5) _ b(5)]
    score_step [OF target_simps(6) weights_simps(6) _ b(6)]
    score_step [OF target_simps(7) weights_simps(7) _ b(7)]
    score_step [OF target_simps(8) weights_simps(8) _ b(8)]
    score_step [OF target_simps(9) weights_simps(9) _ b(9)]
  show ?thesis
    unfolding calculate_score_def categories_def spec_targets_def spec_weights_def
      spec_category_score_def
    by (simp add: st del: score_loop.simps(2))
qed

lemma target_pos: "target k = Some t \<Longrightarrow> 8 \<le> t"
proof -
  assume "target k = Some t"
  then have "(k, t) \<in> set target_table" unfolding target_def by (rule map_of_SomeD)
  then show ?thesis by (auto simp add: target_table_def)
qed

lemma true_div_not_zero_division: "b \<noteq> 0 \<Longrightarrow> true_div a b \<noteq> Inl ZeroDivisionError"
  by (simp add: true_div_def Let_def)

lemma score_loop_no_zero_division: "score_loop cd tot ds \<noteq> Inl ZeroDivisionError"
proof (induction cd arbitrary: tot ds)
  case Nil
  show ?case by simp
next
  case (Cons kc cd)
  obtain k c where kc: "kc = (k, c)" by (cases kc)
  show ?case
  proof (cases "target k")
    case None
    then show ?thesis by (simp add: kc)
  next
    case (Some t)
    then have "t \<noteq> 0" using target_pos [of k t] by simp
    then have nz: "true_div (int c) t \<noteq> Inl ZeroDivisionError"
      by (rule true_div_not_zero_division)
    show ?thesis
    proof (cases "weights k")
      case None
      then show ?thesis using Some by (simp add: kc)
    next
      case w: (Some w)
      show ?thesis
      proof (cases "true_div (int c) t")
        case (Inl e)
        then show ?thesis using Some w nz by (simp add: kc)
      next
        case (Inr q)
        then show ?thesis using Some w Cons.IH by (simp add: kc Let_def)
      qed
    qed
  qed
qed

lemma calculate_score_tier:
  "calculate_score cd = Inr r \<Longrightarrow>
     tier r = fst (tier_of (total_score r)) \<and> tier_color r = snd (tier_of (total_score r))"
  by (auto simp add: calculate_score_def split: sum.splits prod.splits)

lemma tier_float: "fst (tier_of (round_double (59999 / 1000))) = Unrated"
  by code_simp

text \<open>The two worked examples, evaluated step by step.\<close>

lemma ach_full:
  "spec_achievement 60 60 = 100" "spec_achievement 30 30 = 100" "spec_achievement 20 20 = 100"
  "spec_achievement 15 15 = 100" "spec_achievement 12 12 = 100" "spec_achievement 10 10 = 100"
  "spec_achievement 8 8 = 100"
  by code_simp+

lemma ach_some:
  "spec_achievement 30 60 = 50" "spec_achievement 0 60 = 0" "spec_achievement 0 30 = 0"
  "spec_achievement 0 20 = 0" "spec_achievement 0 15 = 0" "spec_achievement 0 12 = 0"
  "spec_achievement 0 10 = 0" "spec_achievement 0 8 = 0"
  by code_simp+

lemma score_full:
  "spec_category_score 100 (23 / 100) = 23" "spec_category_score 100 (9 / 50) = 18"
  "spec_category_score 100 (13 / 100) = 13" "spec_category_score 100 (9 / 100) = 9"
  "spec_category_score 100 (1 / 25) = 4" "spec_category_score 100 (1 / 10) = 10"
  by code_simp+

lemma score_some:
  "spec_category_score 50 (23 / 100) = 23 / 2" "spec_category_score 0 w = 0"
  by (code_simp, simp add: spec_category_score_def fmul_def round_double_def)

lemma sum_full:
  "fadd 0 23 = 23" "fadd 23 18 = 41" "fadd 41 13 = 54" "fadd 54 9 = 63" "fadd 63 9 = 72"
  "fadd 72 4 = 76" "fadd 76 4 = 80" "fadd 80 10 = 90" "fadd 90 10 = 100"
  by code_simp+

lemma sum_some: "fadd 0 (23 / 2) = 23 / 2" "fadd (23 / 2) 0 = 23 / 2"
  by code_simp+

lemma gold_example:
  "\<exists>r. calculate_score (zip categories [60, 30, 20, 15, 12, 10, 15, 20, 8]) = Inr r
       \<and> total_score r = 100 \<and> tier r = Gold"
proof -
  have "\<forall>c \<in> set [60, 30, 20, 15, 12, 10, 15, 20, 8 :: nat]. c < 2 ^ 1024" by simp
  from calculate_score_nine [OF this]
  obtain r where R: "calculate_score (zip categories [60, 30, 20, 15, 12, 10, 15, 20, 8]) = Inr r
     \<and> map d_category (details r) = categories
     \<and> map d_current (details r) = [60, 30, 20, 15, 12, 10, 15, 20, 8]
     \<and> map d_target (details r) = spec_targets
     \<and> map d_achievement (details r) = map2 spec_achievement [60, 30, 20, 15, 12, 10, 15, 20, 8] spec_targets
     \<and> map d_score (details r) = map2 spec_category_score (map d_achievement (details r)) spec_weights
     \<and> total_score r = foldl fadd 0 (map d_score (details r))" ..
  note r = R [THEN conjunct1]
  note a = R [THEN conjunct2, THEN conjunct2, THEN conjunct2, THEN conjunct2, THEN conjunct1]
  note s = R [THEN conjunct2, THEN conjunct2, THEN conjunct2, THEN conjunct2, THEN conjunct2,
    THEN conjunct1]
  note t = R [THEN conjunct2, THEN conjunct2, THEN conjunct2, THEN conjunct2, THEN conjunct2,
    THEN conjunct2]
  note ti = calculate_score_tier [OF r, THEN conjunct1]
  have "total_score r = 100"
    unfolding t s a by (simp add: spec_targets_def spec_weights_def ach_full score_full sum_full)
  then show ?thesis using r ti by (simp add: tier_of_def)
qed

lemma qna_example:
  "\<exists>r. calculate_score (zip categories [30, 0, 0, 0, 0, 0, 0, 0, 0]) = Inr r
       \<and> d_category (hd (details r)) = ''QnA'' \<and> d_achievement (hd (details r)) = 50
       \<and> d_score (hd (details r)) = 23 / 2
       \<and> total_score r = 23 / 2 \<and> tier r = Unrated"
proof -
  have "\<forall>c \<in> set [30, 0, 0, 0, 0, 0, 0, 0, 0 :: nat]. c < 2 ^ 1024" by simp
  from calculate_score_nine [OF this]
  obtain r where R: "calculate_score (zip categories [30, 0, 0, 0, 0, 0, 0, 0, 0]) = Inr r
     \<and> map d_category (details r) = categories
     \<and> map d_current (details r) = [30, 0, 0, 0, 0, 0, 0, 0, 0]
     \<and> map d_target (details r) = spec_targets
     \<and> map d_achievement (details r) = map2 spec_achievement [30, 0, 0, 0, 0, 0, 0, 0, 0] spec_targets
     \<and> map d_score (details r) = map2 spec_category_score (map d_achievement (details r)) spec_weights
     \<and> total_score r = foldl fadd 0 (map d_score (details r))" ..
  note r = R [THEN conjunct1]
  note c = R [THEN conjunct2, THEN conjunct1]
  note a = R [THEN conjunct2, THEN conjunct2, THEN conjunct2, THEN conjunct2, THEN conjunct1]
  note s = R [THEN conjunct2, THEN conjunct2, THEN conjunct2, THEN conjunct2, THEN conjunct2,
    THEN conjunct1]
  note t = R [THEN conjunct2, THEN conjunct2, THEN conjunct2, THEN conjunct2, THEN conjunct2,
    THEN conjunct2]
  note ti = calculate_score_tier [OF r, THEN conjunct1]
  have a': "map d_achievement (details r) = [50, 0, 0, 0, 0, 0, 0, 0, 0]"
    unfolding a by (simp add: spec_targets_def ach_some)
  have s': "map d_score (details r) = [23 / 2, 0, 0, 0, 0, 0, 0, 0, 0]"
    unfolding s a' by (simp add: spec_weights_def score_some)
  have tot: "total_score r = 23 / 2"
    unfolding t s' by (simp add: sum_some)
  have ne: "details r \<noteq> []" using a' by auto
  have "d_category (hd (details r)) = ''QnA''"
    using c ne by (simp add: hd_map [symmetric] categories_def del: hd_map)
  moreover have "d_achievement (hd (details r)) = 50"
    using a' ne by (simp add: hd_map [symmetric] del: hd_map)
  moreover have "d_score (hd (details r)) = 23 / 2"
    using s' ne by (simp add: hd_map [symmetric] del: hd_map)
  ultimately show ?thesis using r tot ti by (simp add: tier_of_def)
qed

text \<open>Bounds on the category scores and on the running total.\<close>

lemma weights_cases:
  assumes "weights k = Some w"
  shows "(k, w) \<in> set weights_table"
  using assms unfolding weights_def by (rule map_of_SomeD)

lemma full_score:
  "fmul 100 (round_double (23 / 100)) = 23" "fmul 100 (round_double (9 / 50)) = 18"
  "fmul 100 (round_double (13 / 100)) = 13" "fmul 100 (round_double (9 / 100)) = 9"
  "fmul 100 (round_double (1 / 25)) = 4" "fmul 100 (round_double (1 / 10)) = 10"
  by code_simp+

lemma points_simps:
  "points ''QnA'' = 23" "points ''workout guideline'' = 18" "points ''diet guideline'' = 13"
  "points ''philosophy'' = 9" "points ''injury'' = 9" "points ''feedback'' = 4"
  "points ''meal examples'' = 4" "points ''workout examples'' = 10" "points ''tone'' = 10"
  by (simp_all add: points_def points_table_def)

lemma points_nonneg: "0 \<le> points k"
  by (simp add: points_def points_table_def)

lemma weights_points:
  assumes "weights k = Some w"
  shows "0 \<le> w \<and> fmul 100 w = of_int (points k)"
proof -
  have nn: "0 \<le> w"
    using weights_cases [OF assms] by (auto simp add: weights_table_def intro: round_double_nonneg)
  have "fmul 100 w = of_int (points k)"
    using weights_cases [OF assms]
    by (auto simp add: weights_table_def points_simps full_score)
  with nn show ?thesis ..
qed

lemma true_div_nonneg:
  assumes "true_div (int c) t = Inr q" "0 < t"
  shows "0 \<le> q"
proof -
  have "q = round_double (of_int (int c) / of_int t)"
    using assms by (simp add: true_div_def Let_def split: if_splits)
  moreover have "(0::rat) \<le> of_int (int c) / of_int t" using assms(2) by simp
  ultimately show ?thesis using round_double_nonneg by simp
qed

lemma fmul_nonneg: "0 \<le> x * y \<Longrightarrow> 0 \<le> fmul x y"
  unfolding fmul_def by (rule round_double_nonneg)

lemma fmul_mono: "0 \<le> x * w \<Longrightarrow> x * w \<le> y * w \<Longrightarrow> fmul x w \<le> fmul y w"
  unfolding fmul_def by (rule round_double_mono)

lemma category_score_bounds:
  assumes "weights k = Some w" "0 \<le> q"
  shows "0 \<le> fmul (py_min (fmul q 100) 100) w"
    and "fmul (py_min (fmul q 100) 100) w \<le> of_int (points k)"
proof -
  let ?a = "py_min (fmul q 100) 100"
  from weights_points [OF assms(1)] have w: "0 \<le> w" and p: "fmul 100 w = of_int (points k)"
    by simp_all
  have "0 \<le> fmul q 100" using assms(2) by (intro fmul_nonneg) simp
  then have a: "0 \<le> ?a" "?a \<le> 100" by (simp_all add: py_min_def)
  then have aw: "0 \<le> ?a * w" "?a * w \<le> 100 * w"
    using w by (simp_all add: mult_right_mono)
  show "0 \<le> fmul ?a w" using aw(1) by (rule fmul_nonneg)
  have "fmul ?a w \<le> fmul 100 w" using aw by (rule fmul_mono)
  then show "fmul ?a w \<le> of_int (points k)" unfolding p .
qed

lemma fadd_bounds:
  assumes "0 \<le> x" "x \<le> of_int a" "0 \<le> y" "y \<le> of_int b" "a + b \<le> 100"
  shows "0 \<le> fadd x y" and "fadd x y \<le> of_int (a + b)"
proof -
  have s: "0 \<le> x + y" "x + y \<le> of_int (a + b)" using assms(1-4) by simp_all
  show "0 \<le> fadd x y" unfolding fadd_def using s(1) by (rule round_double_nonneg)
  have "a + b < 2 ^ 53" using assms(5) by simp
  with s show "fadd x y \<le> of_int (a + b)" unfolding fadd_def by (rule round_double_le_int)
qed

lemma score_loop_bounds:
  assumes "score_loop cd tot ds = Inr (tot', ds')"
    and "0 \<le> tot" "tot \<le> of_int b"
    and "b + sum_list (map points (map fst cd)) \<le> 100"
  shows "0 \<le> tot' \<and> tot' \<le> of_int (b + sum_list (map points (map fst cd)))"
  using assms
proof (induction cd arbitrary: tot ds b)
  case Nil
  then show ?case by simp
next
  case (Cons kc cd)
  obtain k c where kc: "kc = (k, c)" by (cases kc)
  from Cons.prems(1) obtain t w q where
    t: "target k = Some t" and w: "weights k = Some w" and q: "true_div (int c) t = Inr q"
    and rest: "score_loop cd (fadd tot (fmul (py_min (fmul q 100) 100) w))
        (ds @ [\<lparr>d_category = k, d_current = c, d_target = t,
                d_achievement = py_min (fmul q 100) 100,
                d_score = fmul (py_min (fmul q 100) 100) w\<rparr>]) = Inr (tot', ds')"
    by (auto simp add: kc Let_def split: option.splits sum.splits)
  have tpos: "0 < t" using target_pos [OF t] by simp
  have q0: "0 \<le> q" using q tpos by (rule true_div_nonneg)
  note s = category_score_bounds [OF w q0]
  have rem: "0 \<le> sum_list (map points (map fst cd))"
    by (rule sum_list_nonneg) (auto simp add: points_nonneg)
  have le: "b + points k \<le> 100" using Cons.prems(4) rem by (simp add: kc)
  note f = fadd_bounds [OF Cons.prems(2,3) s le]
  have "(b + points k) + sum_list (map points (map fst cd)) \<le> 100"
    using Cons.prems(4) by (simp add: kc)
  from Cons.IH [OF rest f this]
  show ?case by (simp add: kc add.assoc)
qed

lemma points_total: "sum_list (map points categories) = 100"
  by (simp add: categories_def points_simps)

lemma points_outside: "k \<notin> set categories \<Longrightarrow> points k = 0"
  by (simp add: points_def points_table_def categories_def)

lemma distinct_categories: "distinct categories"
  by (simp add: categories_def)

lemma points_sum_distinct:
  assumes "distinct ks"
  shows "sum_list (map points ks) \<le> 100"
proof -
  have "sum_list (map points ks) = sum points (set ks)"
    using assms by (simp add: sum_list_distinct_conv_sum_set)
  also have "\<dots> \<le> sum points (set ks \<union> set categories)"
    by (rule sum_mono2) (auto simp add: points_nonneg)
  also have "\<dots> = sum points (set categories)"
    by (rule sum.mono_neutral_right) (auto simp add: points_outside)
  also have "\<dots> = sum_list (map points categories)"
    using distinct_categories by (simp add: sum_list_distinct_conv_sum_set)
  finally show ?thesis by (simp add: points_total)
qed

lemma calculate_score_range:
  assumes "calculate_score cd = Inr r" "distinct (map fst cd)"
  shows "0 \<le> total_score r \<and> total_score r \<le> 100"
proof -
  from assms(1) obtain ds where l: "score_loop cd 0 [] = Inr (total_score r, ds)"
    by (auto simp add: calculate_score_def split: sum.splits prod.splits)
  have b: "0 + sum_list (map points (map fst cd)) \<le> 100"
    using points_sum_distinct [OF assms(2)] by simp
  have "0 \<le> total_score r \<and> total_score r \<le> of_int (0 + sum_list (map points (map fst cd)))"
    using l _ _ b by (rule score_loop_bounds) simp_all
  moreover have "(of_int (0 + sum_list (map points (map fst cd))) :: rat) \<le> of_int 100"
    using b by (simp only: of_int_le_iff)
  ultimately show ?thesis by simp
qed

lemma score_loop_total:
  assumes "set (map fst cd) \<subseteq> set categories" "\<forall>c \<in> set (map snd cd). c < 2 ^ 1024"
  shows "\<exists>res. score_loop cd tot ds = Inr res"
  using assms
proof (induction cd arbitrary: tot ds)
  case Nil
  show ?case by simp
next
  case (Cons kc cd)
  obtain k c where kc: "kc = (k, c)" by (cases kc)
  from Cons.prems(1) have "k \<in> set categories" by (simp add: kc)
  then obtain t w where t: "target k = Some t" and w: "weights k = Some w"
    by (auto simp add: categories_def target_simps weights_simps)
  have t2: "2 \<le> t" using target_pos [OF t] by simp
  have c: "c < 2 ^ 1024" using Cons.prems(2) by (simp add: kc)
  have "\<exists>res. score_loop cd (fadd tot (fmul (spec_achievement c t) w))
             (ds @ [\<lparr>d_category = k, d_current = c, d_target = t,
                     d_achievement = spec_achievement c t,
                     d_score = fmul (spec_achievement c t) w\<rparr>]) = Inr res"
    using Cons.prems by (intro Cons.IH) (simp_all add: kc)
  then show ?case unfolding kc score_step [OF t w t2 c] .
qed

section \<open>Properties of the shortfall ranking\<close>

lemma true_div_ratio:
  assumes "0 < n" "n \<le> t"
  shows "true_div n t = Inr (round_double (of_int n / of_int t))"
proof -
  let ?x = "of_int n / of_int t :: rat"
  have tpos: "(0::rat) < of_int t" using assms by simp
  have x0: "0 \<le> ?x" using assms by simp
  have "?x \<le> 1" using assms tpos by simp
  then have x1: "?x \<le> of_int 1" by simp
  have "round_double ?x \<le> of_int 1" using x0 x1 by (rule round_double_le_int) simp
  moreover have "0 \<le> round_double ?x" using x0 by (rule round_double_nonneg)
  ultimately have "\<bar>round_double ?x\<bar> \<le> 1" by simp
  moreover have "(1::rat) < 2 ^ 1024" by (rule one_less_power) simp_all
  ultimately have "\<not> 2 ^ 1024 \<le> \<bar>round_double ?x\<bar>" by simp
  moreover have "t \<noteq> 0" using assms by simp
  ultimately show ?thesis by (simp add: true_div_def Let_def)
qed

lemma needed_loop_eq:
  "needed_loop cd acc = Inr (acc @ map spec_needed_item (filter spec_short cd))"
proof (induction cd arbitrary: acc)
  case Nil
  show ?case by simp
next
  case (Cons kc cd)
  obtain k c where kc: "kc = (k, c)" by (cases kc)
  show ?case
  proof (cases "target k")
    case None
    then show ?thesis by (simp add: kc Cons.IH spec_short_def)
  next
    case t: (Some t)
    show ?thesis
    proof (cases "weights k")
      case None
      then show ?thesis using t by (simp add: kc Cons.IH spec_short_def)
    next
      case w: (Some w)
      show ?thesis
      proof (cases "int c < t")
        case False
        then show ?thesis using t w by (simp add: kc Cons.IH spec_short_def Let_def)
      next
        case True
        then have n: "0 < t - int c" "t - int c \<le> t" by simp_all
        show ?thesis
          using t w True true_div_ratio [OF n]
          by (simp add: kc Cons.IH spec_short_def spec_needed_item_def spec_priority_def Let_def)
      qed
    qed
  qed
qed

lemma shortfall_ranking_eq:
  "shortfall_ranking cd = Inr (sort_reverse (map spec_needed_item (filter spec_short cd)))"
  by (simp add: shortfall_ranking_def needed_loop_eq)

lemma sort_reverse_sorted: "sorted_wrt (\<lambda>a b. n_priority b \<le> n_priority a) (sort_reverse xs)"
proof -
  have "sorted (map (\<lambda>x. - n_priority x) (sort_reverse xs))"
    unfolding sort_reverse_def by (rule sorted_sort_key)
  then show ?thesis by (simp add: sorted_map)
qed

lemma sort_reverse_stable:
  "filter (\<lambda>i. n_priority i = p) (sort_reverse xs) = filter (\<lambda>i. n_priority i = p) xs"
  using sort_key_stable [of "\<lambda>x. - n_priority x" "- p" xs] by (simp add: sort_reverse_def)

lemma sort_reverse_set: "set (sort_reverse xs) = set xs"
  by (simp add: sort_reverse_def)

lemma sort_reverse_length: "length (sort_reverse xs) = length xs"
  by (simp add: sort_reverse_def)

lemma surfaced_length: "length (surfaced xs) \<le> 5"
  by (simp add: surfaced_def)

lemma enumerate_snd: "map snd (zip [1 ..< Suc (length ys)] ys) = ys"
  by (rule map_snd_zip) (simp del: upt_Suc)

lemma enumerate_nth:
  "j < length ys \<Longrightarrow> zip [1 ..< Suc (length ys)] ys ! j = (Suc j, ys ! j)"
  by (simp add: nth_zip del: upt_Suc)

lemma surfaced_items: "map snd (surfaced xs) = take 5 xs"
proof -
  have "map snd (surfaced xs) = map snd (zip [1 ..< Suc (length (take 5 xs))] (take 5 xs))"
    unfolding surfaced_def by (simp add: case_prod_beta comp_def del: upt_Suc length_take)
  also have "\<dots> = take 5 xs" by (rule enumerate_snd)
  finally show ?thesis .
qed

lemma surfaced_flags:
  assumes "j < length (surfaced xs)"
  shows "fst (surfaced xs ! j) = (if j < 3 then Urgent else Important)"
proof -
  from assms have j: "j < length (take 5 xs)" by (simp add: surfaced_def)
  have l: "j < length (zip [1 ..< Suc (length (take 5 xs))] (take 5 xs))"
    using j by (simp del: upt_Suc length_take)
  have "surfaced xs ! j = (if Suc j \<le> 3 then Urgent else Important, take 5 xs ! j)"
    unfolding surfaced_def nth_map [OF l] enumerate_nth [OF j] by simp
  then show ?thesis by auto
qed

lemma priority_example:
  "spec_priority 60 (round_double (23 / 100)) 30 = 8286623314361713 / 72057594037927936"
  "spec_priority 30 (round_double (9 / 50)) 0 = 3242591731706757 / 18014398509481984"
  "spec_priority 15 (round_double (9 / 100)) 3 = 5188146770730811 / 72057594037927936"
  "spec_priority 10 (round_double (1 / 25)) 5 = 5764607523034235 / 288230376151711744"
  "spec_priority 15 (round_double (1 / 25)) 0 = 5764607523034235 / 144115188075855872"
  "spec_priority 20 (round_double (1 / 10)) 10 = 3602879701896397 / 72057594037927936"
  "spec_priority 8 (round_double (1 / 10)) 4 = 3602879701896397 / 72057594037927936"
  by code_simp+

lemma needed_example:
  "map spec_needed_item (filter spec_short (zip categories [30, 0, 20, 3, 12, 5, 0, 10, 4])) =
     [\<lparr>n_category = ''QnA'', n_needed = 30,
        n_priority = 8286623314361713 / 72057594037927936\<rparr>,
      \<lparr>n_category = ''workout guideline'', n_needed = 30,
        n_priority = 3242591731706757 / 18014398509481984\<rparr>,
      \<lparr>n_category = ''philosophy'', n_needed = 12,
        n_priority = 5188146770730811 / 72057594037927936\<rparr>,
      \<lparr>n_category = ''feedback'', n_needed = 5,
        n_priority = 5764607523034235 / 288230376151711744\<rparr>,
      \<lparr>n_category = ''meal examples'', n_needed = 15,
        n_priority = 5764607523034235 / 144115188075855872\<rparr>,
      \<lparr>n_category = ''workout examples'', n_needed = 10,
        n_priority = 3602879701896397 / 72057594037927936\<rparr>,
      \<lparr>n_category = ''tone'', n_needed = 4,
        n_priority = 3602879701896397 / 72057594037927936\<rparr>]"
  by (simp add: categories_def spec_short_def spec_needed_item_def target_simps weights_simps
        priority_example)

lemma ranking_example:
  "shortfall_ranking (zip categories [30, 0, 20, 3, 12, 5, 0, 10, 4]) =
     Inr [\<lparr>n_category = ''workout guideline'', n_needed = 30,
            n_priority = 3242591731706757 / 18014398509481984\<rparr>,
          \<lparr>n_category = ''QnA'', n_needed = 30,
            n_priority = 8286623314361713 / 72057594037927936\<rparr>,
          \<lparr>n_category = ''philosophy'', n_needed = 12,
            n_priority = 5188146770730811 / 72057594037927936\<rparr>,
          \<lparr>n_category = ''workout examples'', n_needed = 10,
            n_priority = 3602879701896397 / 72057594037927936\<rparr>,
          \<lparr>n_category = ''tone'', n_needed = 4,
            n_priority = 3602879701896397 / 72057594037927936\<rparr>,
          \<lparr>n_category = ''meal examples'', n_needed = 15,
            n_priority = 5764607523034235 / 144115188075855872\<rparr>,
          \<lparr>n_category = ''feedback'', n_needed = 5,
            n_priority = 5764607523034235 / 288230376151711744\<rparr>]"
  unfolding shortfall_ranking_eq needed_example by (simp add: sort_reverse_def)

lemma map_fst_filter_distinct:
  assumes "distinct (map fst xs)"
  shows "map fst (filter P xs) = filter (\<lambda>k. \<exists>c. (k, c) \<in> set xs \<and> P (k, c)) (map fst xs)"
  using assms
proof (induction xs)
  case Nil
  show ?case by simp
next
  case (Cons x xs)
  obtain k c where x: "x = (k, c)" by (cases x)
  from Cons.prems have d: "distinct (map fst xs)" and nk: "k \<notin> fst ` set xs" by (simp_all add: x)
  have "filter (\<lambda>k'. \<exists>c'. (k', c') \<in> set (x # xs) \<and> P (k', c')) (map fst xs)
      = filter (\<lambda>k'. \<exists>c'. (k', c') \<in> set xs \<and> P (k', c')) (map fst xs)"
    using nk by (intro filter_cong) (auto simp add: x)
  moreover have "(\<exists>c'. (k, c') \<in> set (x # xs) \<and> P (k, c')) = P (k, c)"
    using nk by (auto simp add: x) (metis fst_conv image_eqI)
  ultimately show ?case using Cons.IH [OF d] by (simp add: x)
qed

lemma known_category:
  assumes "k \<in> set categories"
  shows "spec_short (k, c) = (int c < the (target k))"
  using assms by (auto simp add: categories_def spec_short_def target_simps weights_simps)

lemma item_category: "n_category (spec_needed_item kc) = fst kc"
  by (simp add: spec_needed_item_def)


lemma surfaced_example:
  "map (\<lambda>(f, i). (f, n_category i))
     (surfaced [\<lparr>n_category = ''workout guideline'', n_needed = 30,
            n_priority = 3242591731706757 / 18014398509481984\<rparr>,
          \<lparr>n_category = ''QnA'', n_needed = 30,
            n_priority = 8286623314361713 / 72057594037927936\<rparr>,
          \<lparr>n_category = ''philosophy'', n_needed = 12,
            n_priority = 5188146770730811 / 72057594037927936\<rparr>,
          \<lparr>n_category = ''workout examples'', n_needed = 10,
            n_priority = 3602879701896397 / 72057594037927936\<rparr>,
          \<lparr>n_category = ''tone'', n_needed = 4,
            n_priority = 3602879701896397 / 72057594037927936\<rparr>,
          \<lparr>n_category = ''meal examples'', n_needed = 15,
            n_priority = 5764607523034235 / 144115188075855872\<rparr>,
          \<lparr>n_category = ''feedback'', n_needed = 5,
            n_priority = 5764607523034235 / 288230376151711744\<rparr>])
     = [(Urgent, ''workout guideline''), (Urgent, ''QnA''), (Urgent, ''philosophy''),
        (Important, ''workout examples''), (Important, ''tone'')]"
  by (simp add: surfaced_def upt_rec)

lemma tie_priorities:
  "spec_priority 30 (round_double (9 / 50)) 15 = 3242591731706757 / 36028797018963968"
  "spec_priority 20 (round_double (1 / 10)) 2 = 6485183463413515 / 72057594037927936"
  by code_simp+

lemma tie_needed:
  "map spec_needed_item (filter spec_short (zip categories [60, 15, 20, 15, 12, 10, 15, 2, 8])) =
     [\<lparr>n_category = ''workout guideline'', n_needed = 15,
        n_priority = 3242591731706757 / 36028797018963968\<rparr>,
      \<lparr>n_category = ''workout examples'', n_needed = 18,
        n_priority = 6485183463413515 / 72057594037927936\<rparr>]"
  by (simp add: categories_def spec_short_def spec_needed_item_def target_simps weights_simps
        tie_priorities)

section \<open>Properties of the store operations\<close>

subsection \<open>The connection\<close>

lemma execute_ok_usable:
  assumes "execute e w s = (Inr u, w')"
  shows "conn_state w = Usable"
  using assms by (cases "conn_state w") (simp_all add: execute_def)

lemma conn_state_apply_stmt [simp]: "conn_state (apply_stmt s w) = conn_state w"
  by (cases s) simp_all

lemma execute_ok_stays_usable:
  assumes "execute e w s = (Inr u, w')"
  shows "conn_state w' = Usable"
proof -
  have u: "conn_state w = Usable" using assms by (rule execute_ok_usable)
  show ?thesis
    using assms u by (auto simp add: execute_def Let_def split: option.splits if_splits)
qed

lemma get_db_connection_fresh:
  assumes "get_db_connection e (w\<lparr>conn_cached := False\<rparr>) = (Inr u, w')"
  shows "conn_state w' = Usable"
  using assms by (auto simp add: get_db_connection_def Let_def split: option.splits)

lemma get_safe_connection_usable:
  assumes "get_safe_connection e w = (Inr u, w1)"
  shows "conn_state w1 = Usable"
proof -
  obtain r0 w0 where g: "get_db_connection e w = (r0, w0)" by (cases "get_db_connection e w")
  obtain r2 w2 where x: "execute e w0 SelectOne = (r2, w2)" by (cases "execute e w0 SelectOne")
  show ?thesis
  proof (cases r0)
    case (Inl err)
    then show ?thesis using assms by (simp add: get_safe_connection_def g)
  next
    case r0: (Inr u0)
    show ?thesis
    proof (cases r2)
      case (Inr u2)
      then have "w1 = w2" using assms by (simp add: get_safe_connection_def g r0 x)
      then show ?thesis using execute_ok_stays_usable x Inr by simp
    next
      case (Inl err)
      then have "get_db_connection e (w2\<lparr>conn_cached := False\<rparr>) = (Inr u, w1)"
        using assms by (simp add: get_safe_connection_def g r0 x split: if_splits)
      then show ?thesis by (rule get_db_connection_fresh)
    qed
  qed
qed

subsection \<open>The count queries\<close>

lemma fetch_count_log [simp]:
  "fetch_count (w\<lparr>db_log := l\<rparr>) t trainer_id = fetch_count w t trainer_id"
  by (simp add: fetch_count_def)

lemma execute_unusable:
  assumes "conn_state w \<noteq> Usable"
  shows "\<exists>err. execute e w s = (Inl err, w\<lparr>db_log := db_log w @ [Execute s]\<rparr>)"
  using assms by (cases "conn_state w") (simp_all add: execute_def)

text \<open>Once the connection is not usable, every count that is left reads 0.\<close>

lemma count_loop_unusable:
  assumes "conn_state w \<noteq> Usable"
  shows "count_loop e w trainer_id ts data =
          (data @ map (\<lambda>(name, t). (name, 0)) ts,
           w\<lparr>db_log := db_log w @ map (\<lambda>(name, t). Execute (SelectCount t trainer_id)) ts\<rparr>)"
  using assms
proof (induction ts arbitrary: w data)
  case Nil
  show ?case by simp
next
  case (Cons nt ts)
  obtain name t where nt: "nt = (name, t)" by (cases nt)
  let ?w' = "w\<lparr>db_log := db_log w @ [Execute (SelectCount t trainer_id)]\<rparr>"
  from execute_unusable [OF Cons.prems]
  obtain err where x: "execute e w (SelectCount t trainer_id) = (Inl err, ?w')" ..
  have u: "conn_state ?w' \<noteq> Usable" using Cons.prems by simp
  show ?case by (simp add: nt x Cons.IH [OF u])
qed

text \<open>
  A count query that fails leaves the connection unusable, and the loop does not roll
  back: the categories after it read 0 whatever the tables hold.
\<close>

lemma count_loop_failure:
  assumes "conn_state w = Usable" and "db_fault e (length (db_log w)) = Some err"
  shows "fst (count_loop e w trainer_id ((name, t) # rest) data) =
           data @ (name, 0) # map (\<lambda>(name, t). (name, 0)) rest"
proof -
  let ?w' = "w\<lparr>db_log := db_log w @ [Execute (SelectCount t trainer_id)],
                conn_state := after_error err\<rparr>"
  have x: "execute e w (SelectCount t trainer_id) = (Inl err, ?w')"
    using assms by (simp add: execute_def)
  have u: "conn_state ?w' \<noteq> Usable" by (simp add: after_error_def)
  show ?thesis by (simp add: x count_loop_unusable [OF u])
qed

lemma count_loop_success:
  assumes "conn_state w = Usable" and "db_fault e (length (db_log w)) = None"
  shows "count_loop e w trainer_id ((name, t) # rest) data =
           count_loop e (w\<lparr>db_log := db_log w @ [Execute (SelectCount t trainer_id)]\<rparr>)
             trainer_id rest (data @ [(name, fetch_count w t trainer_id)])"
  using assms by (simp add: execute_def)

lemma tables_keys: "map fst tables = categories"
  by (simp add: tables_def categories_def)

lemma sample_counts:
  "fetch_count sample_world ''data_trainer_qna'' ''tr_001'' = 2"
  "fetch_count sample_world ''data_trainer_workout_guideline'' ''tr_001'' = 0"
  "fetch_count sample_world ''data_trainer_diet_guideline'' ''tr_001'' = 0"
  "fetch_count sample_world ''data_trainer_philosophy'' ''tr_001'' = 1"
  "fetch_count sample_world ''data_trainer_injury'' ''tr_001'' = 0"
  "fetch_count sample_world ''data_trainer_feedback'' ''tr_001'' = 0"
  "fetch_count sample_world ''data_trainer_meal_examples'' ''tr_001'' = 0"
  "fetch_count sample_world ''data_trainer_workout_examples'' ''tr_001'' = 0"
  "fetch_count sample_world ''data_trainer_tones_raw'' ''tr_001'' = 0"
  by (simp_all add: fetch_count_def sample_world_def sample_rows_def owned_by_def)

lemma sample_usable [simp]: "conn_state (sample_world\<lparr>db_log := l\<rparr>) = Usable"
  by (simp add: sample_world_def)

lemma healthy_sample_connection:
  "get_safe_connection healthy_env sample_world
     = (Inr (), sample_world\<lparr>db_log := [Execute SelectOne]\<rparr>)"
  by (simp add: get_safe_connection_def get_db_connection_def execute_def healthy_env_def
        sample_world_def)

lemma third_call_fails_sample_connection:
  "get_safe_connection third_call_fails_env sample_world
     = (Inr (), sample_world\<lparr>db_log := [Execute SelectOne]\<rparr>)"
  by (simp add: get_safe_connection_def get_db_connection_def execute_def
        third_call_fails_env_def sample_world_def)

lemma healthy_no_fault [simp]: "db_fault healthy_env n = None"
  by (simp add: healthy_env_def)

lemma get_current_data_connected:
  assumes "get_safe_connection e w = (Inr (), w1)"
  shows "fst (get_current_data e w trainer_id) = Inr (fst (count_loop e w1 trainer_id tables []))"
  using assms by (simp add: get_current_data_def split: prod.splits)

lemma get_current_data_connection_failure:
  "fst (get_current_data unreachable_env fresh_world ''tr_001'') = Inl OperationalError"
  by (simp add: get_current_data_def get_safe_connection_def get_db_connection_def
        unreachable_env_def fresh_world_def)

subsection \<open>Categories and tables\<close>

lemma unknown_table: "category \<notin> set categories \<Longrightarrow> map_of tables category = None"
  by (simp add: map_of_eq_None_iff tables_keys [symmetric])

lemma unknown_columns: "category \<notin> set categories \<Longrightarrow> map_of category_columns category = None"
  by (simp add: map_of_eq_None_iff category_columns_def categories_def)

lemma unknown_insert_statement:
  "category \<notin> set categories \<Longrightarrow> insert_statement trainer_id category data_dict = None"
  by (simp add: insert_statement_def categories_def)

lemma unknown_not_tone: "category \<notin> set categories \<Longrightarrow> category \<noteq> ''tone''"
  by (auto simp add: categories_def)

subsection \<open>What each database call leaves alone\<close>

lemma cache_apply_stmt [simp]: "cache (apply_stmt s w) = cache w"
  by (cases s) simp_all

lemma cache_execute [simp]: "cache (snd (execute e w s)) = cache w"
  by (simp add: execute_def Let_def split: option.splits conn_state.splits)

lemma cache_commit [simp]: "cache (snd (commit e w)) = cache w"
  by (simp add: commit_def Let_def split: option.splits conn_state.splits)

lemma cache_rollback [simp]: "cache (rollback w) = cache w"
  by (simp add: rollback_def)

lemma cache_get_db_connection [simp]: "cache (snd (get_db_connection e w)) = cache w"
  by (simp add: get_db_connection_def Let_def split: option.splits)

lemma cache_get_safe_connection [simp]: "cache (snd (get_safe_connection e w)) = cache w"
proof -
  obtain r1 w1 where g: "get_db_connection e w = (r1, w1)" by (cases "get_db_connection e w")
  have c1: "cache w1 = cache w" using cache_get_db_connection [of e w] by (simp add: g)
  obtain r2 w2 where x: "execute e w1 SelectOne = (r2, w2)" by (cases "execute e w1 SelectOne")
  have c2: "cache w2 = cache w1" using cache_execute [of e w1 SelectOne] by (simp add: x)
  have c3: "cache (snd (get_db_connection e (w2\<lparr>conn_cached := False\<rparr>))) = cache w2"
    by simp
  show ?thesis
    using c1 c2 c3 by (simp add: get_safe_connection_def g x split: sum.splits)
qed

lemma cache_post_analyze_tone [simp]: "cache (snd (post_analyze_tone e w trainer_id t)) = cache w"
  by (simp add: post_analyze_tone_def)

lemma cache_add_tone [simp]: "cache (snd (add_tone e w trainer_id data_dict)) = cache w"
proof (cases "subscript data_dict ''raw_data''")
  case (Inl err)
  then show ?thesis by (simp add: add_tone_def)
next
  case (Inr raw_data)
  let ?s = "Insert ''data_trainer_tones_raw'' [''trainer_id'', ''trainer_name'', ''raw_data'']
              [Str trainer_id, Str (get_default data_dict ''trainer_name'' []), Str raw_data]"
  obtain r2 w2 where x: "execute e w ?s = (r2, w2)" by (cases "execute e w ?s")
  have c2: "cache w2 = cache w" using cache_execute [of e w ?s] by (simp add: x)
  obtain r3 w3 where c: "commit e w2 = (r3, w3)" by (cases "commit e w2")
  have c3: "cache w3 = cache w2" using cache_commit [of e w2] by (simp add: c)
  obtain r4 w4 where p: "post_analyze_tone e w3 trainer_id 30 = (r4, w4)"
    by (cases "post_analyze_tone e w3 trainer_id 30")
  have c4: "cache w4 = cache w3" using cache_post_analyze_tone [of e w3 trainer_id 30] by (simp add: p)
  show ?thesis
    using c2 c3 c4
    by (simp add: add_tone_def Inr x c p split: sum.splits http_outcome.splits)
qed

lemma add_data_keeps_cache: "cache (snd (add_data e w trainer_id category data_dict)) = cache w"
proof -
  obtain r1 w1 where g: "get_safe_connection e w = (r1, w1)" by (cases "get_safe_connection e w")
  have c1: "cache w1 = cache w" using cache_get_safe_connection [of e w] by (simp add: g)
  have ex: "cache (snd (execute e w1 s)) = cache w" for s by (simp add: c1)
  have co: "cache (snd (commit e w')) = cache w'" for w' by simp
  have tone: "cache (snd (add_tone e w1 trainer_id data_dict)) = cache w" by (simp add: c1)
  show ?thesis
  proof (cases r1)
    case (Inl err)
    then show ?thesis by (simp add: add_data_def g c1)
  next
    case (Inr u)
    show ?thesis
    proof (cases "insert_statement trainer_id category data_dict")
      case None
      obtain rt wt where t: "add_tone e w1 trainer_id data_dict = (rt, wt)"
        by (cases "add_tone e w1 trainer_id data_dict")
      obtain r3 w3 where c: "commit e w1 = (r3, w3)" by (cases "commit e w1")
      have c3: "cache w3 = cache w" using co [of w1] by (simp add: c c1)
      have ct: "cache wt = cache w" using tone by (simp add: t)
      show ?thesis
        using c3 ct by (simp add: add_data_def g Inr None t c split: sum.splits)
    next
      case (Some st)
      show ?thesis
      proof (cases st)
        case (Inl err)
        then show ?thesis by (simp add: add_data_def g Inr Some c1)
      next
        case (Inr s)
        obtain r2 w2 where x: "execute e w1 s = (r2, w2)" by (cases "execute e w1 s")
        have c2: "cache w2 = cache w" using ex [of s] by (simp add: x)
        obtain r3 w3 where c: "commit e w2 = (r3, w3)" by (cases "commit e w2")
        have c3: "cache w3 = cache w" using co [of w2] by (simp add: c c2)
        show ?thesis
          using c2 c3 by (simp add: add_data_def g \<open>r1 = Inr u\<close> Some Inr x c split: sum.splits)
      qed
    qed
  qed
qed

subsection \<open>Unknown categories\<close>

lemma delete_data_unknown:
  assumes "get_safe_connection e w = (Inr (), w1)" and "category \<notin> set categories"
  shows "delete_data e w category data_id = (Inr (False, InvalidCategory), w1)"
  using assms by (simp add: delete_data_def unknown_table)

lemma update_data_unknown:
  assumes "get_safe_connection e w = (Inr (), w1)" and "category \<notin> set categories"
  shows "update_data e w category data_id updated_fields = (Inr (False, InvalidCategory), w1)"
  using assms by (simp add: update_data_def unknown_table)

lemma get_category_data_unknown:
  assumes "category \<notin> set categories" and "map_of (cache w) (trainer_id, category) = None"
  shows "fst (get_category_data e w trainer_id category) = []"
  using assms
  by (simp add: get_category_data_def get_category_data_body_def unknown_table
        split: prod.splits sum.splits)

lemma add_data_unknown:
  assumes "get_safe_connection e w = (Inr (), w1)" and "category \<notin> set categories"
    and "db_fault e (length (db_log w1)) = None"
  shows "add_data e w trainer_id category data_dict
           = (Inr (True, Added), w1\<lparr>db_log := db_log w1 @ [Commit], committed := working w1\<rparr>)"
proof -
  have u: "conn_state w1 = Usable" using assms(1) by (rule get_safe_connection_usable)
  show ?thesis
    using assms u
    by (simp add: add_data_def unknown_insert_statement unknown_not_tone commit_def)
qed

lemma unknown_example: "''unknown'' \<notin> set categories"
  by (simp add: categories_def)

subsection \<open>Deleting\<close>

lemma delete_data_ok:
  assumes conn: "get_safe_connection e w = (Inr (), w1)"
    and valid: "map_of tables category = Some t"
    and ok_delete: "db_fault e (length (db_log w1)) = None"
    and ok_commit: "db_fault e (Suc (length (db_log w1))) = None"
  shows "delete_data e w category data_id
           = (Inr (True, Deleted),
              w1\<lparr>working := (working w1)(t := filter (\<lambda>r. r_id r \<noteq> data_id) (working w1 t)),
                 db_log := db_log w1 @ [Execute (Delete t data_id), Commit],
                 committed := (working w1)(t := filter (\<lambda>r. r_id r \<noteq> data_id) (working w1 t)),
                 cache := []\<rparr>)"
proof -
  have u: "conn_state w1 = Usable" using conn by (rule get_safe_connection_usable)
  show ?thesis
    using assms u by (simp add: delete_data_def execute_def commit_def)
qed

subsection \<open>The read cache\<close>

lemma delete_data_clears_cache:
  assumes "fst (delete_data e w category data_id) = Inr (True, m)"
  shows "cache (snd (delete_data e w category data_id)) = []"
  using assms
  by (auto simp add: delete_data_def split: prod.splits sum.splits option.splits)

lemma update_data_clears_cache:
  assumes "fst (update_data e w category data_id updated_fields) = Inr (True, m)"
  shows "cache (snd (update_data e w category data_id updated_fields)) = []"
  using assms
  by (auto simp add: update_data_def split: prod.splits sum.splits option.splits)

lemma philosophy_table: "map_of tables ''philosophy'' = Some ''data_trainer_philosophy''"
  by (simp add: tables_def)

lemma philosophy_columns:
  "map_of category_columns ''philosophy'' = Some [''id'', ''content'', ''category'', ''created_at'']"
  by (simp add: category_columns_def)

lemma listed_world_eq:
  "listed_world =
     sample_world
       \<lparr>db_log := [Execute SelectOne,
                   Execute (SelectRows ''data_trainer_philosophy''
                     [''id'', ''content'', ''category'', ''created_at''] ''tr_001'')],
        cache := [((''tr_001'', ''philosophy''),
                   [\<lparr>r_id = 3, r_fields = [(''trainer_id'', Str ''tr_001''), (''content'', Str ''c'')]\<rparr>])]\<rparr>"
proof -
  have c: "map_of (cache sample_world) (''tr_001'', ''philosophy'') = None"
    by (simp add: sample_world_def)
  have b: "get_category_data_body healthy_env sample_world ''tr_001'' ''philosophy''
        = ([\<lparr>r_id = 3, r_fields = [(''trainer_id'', Str ''tr_001''), (''content'', Str ''c'')]\<rparr>],
           sample_world\<lparr>db_log := [Execute SelectOne,
                   Execute (SelectRows ''data_trainer_philosophy''
                     [''id'', ''content'', ''category'', ''created_at''] ''tr_001'')]\<rparr>)"
    unfolding get_category_data_body_def healthy_sample_connection
    by (simp add: philosophy_table philosophy_columns execute_def)
       (simp add: sample_world_def sample_rows_def owned_by_def)
  show ?thesis
    unfolding listed_world_def get_category_data_def
    by (simp add: c b) (simp add: sample_world_def)
qed

lemma get_safe_connection_cached:
  assumes "conn_cached w" and "conn_state w = Usable" and "db_fault e (length (db_log w)) = None"
  shows "get_safe_connection e w = (Inr (), w\<lparr>db_log := db_log w @ [Execute SelectOne]\<rparr>)"
  using assms by (simp add: get_safe_connection_def get_db_connection_def execute_def)

lemma add_data_ok:
  assumes conn: "get_safe_connection e w = (Inr (), w1)"
    and stmt: "insert_statement trainer_id category data_dict = Some (Inr s)"
    and well: "\<not> malformed s"
    and ok_insert: "db_fault e (length (db_log w1)) = None"
    and ok_commit: "db_fault e (Suc (length (db_log w1))) = None"
  shows "add_data e w trainer_id category data_dict
           = (Inr (True, Added),
              (apply_stmt s (w1\<lparr>db_log := db_log w1 @ [Execute s]\<rparr>))
                \<lparr>db_log := db_log w1 @ [Execute s, Commit],
                 committed := working (apply_stmt s (w1\<lparr>db_log := db_log w1 @ [Execute s]\<rparr>))\<rparr>)"
proof -
  have u: "conn_state w1 = Usable" using conn by (rule get_safe_connection_usable)
  let ?w2 = "apply_stmt s (w1\<lparr>db_log := db_log w1 @ [Execute s]\<rparr>)"
  have x: "execute e w1 s = (Inr (), ?w2)"
    using u well ok_insert by (simp add: execute_def)
  have l: "db_log ?w2 = db_log w1 @ [Execute s]" by (cases s) simp_all
  have c: "commit e ?w2 = (Inr (), ?w2\<lparr>db_log := db_log w1 @ [Execute s, Commit],
                                         committed := working ?w2\<rparr>)"
    using u ok_commit by (simp add: commit_def l)
  show ?thesis by (simp add: add_data_def conn stmt x c)
qed

lemma listed_connection:
  "get_safe_connection healthy_env listed_world
     = (Inr (), listed_world\<lparr>db_log := db_log listed_world @ [Execute SelectOne]\<rparr>)"
  by (rule get_safe_connection_cached) (simp_all add: listed_world_eq sample_world_def)

lemma add_note_statement:
  "insert_statement ''tr_001'' ''philosophy'' [(''content'', ''c2'')]
     = Some (Inr (Insert ''data_trainer_philosophy''
         [''trainer_id'', ''content'', ''category'', ''language'']
         [Str ''tr_001'', Str ''c2'', StrList [''mindset''], Str ''ko'']))"
  by (simp add: insert_statement_def insert_philosophy_def required_def subscript_def)

lemma add_note:
  "add_data healthy_env listed_world ''tr_001'' ''philosophy'' [(''content'', ''c2'')]
     = (Inr (True, Added), added_world)"
proof -
  let ?s = "Insert ''data_trainer_philosophy''
         [''trainer_id'', ''content'', ''category'', ''language'']
         [Str ''tr_001'', Str ''c2'', StrList [''mindset''], Str ''ko'']"
  have "fst (add_data healthy_env listed_world ''tr_001'' ''philosophy'' [(''content'', ''c2'')])
          = Inr (True, Added)"
    by (subst add_data_ok [OF listed_connection add_note_statement]) simp_all
  then show ?thesis unfolding added_world_def by (simp add: prod_eq_iff)
qed

lemma added_world_table:
  "map r_id (committed added_world ''data_trainer_philosophy'') = [3, 4]"
  unfolding added_world_def
  by (subst add_data_ok [OF listed_connection add_note_statement])
     (simp_all add: listed_world_eq sample_world_def sample_rows_def)

lemma added_world_cache: "cache added_world = cache listed_world"
  unfolding added_world_def by (rule add_data_keeps_cache)

lemma listed_cache:
  "cache listed_world =
     [((''tr_001'', ''philosophy''),
       [\<lparr>r_id = 3, r_fields = [(''trainer_id'', Str ''tr_001''), (''content'', Str ''c'')]\<rparr>])]"
  by (simp add: listed_world_eq)

subsection \<open>Tone samples\<close>

lemma sample_state: "conn_state sample_world = Usable"
  by (simp add: sample_world_def)

lemma tone_statement: "insert_statement trainer_id ''tone'' data_dict = None"
  by (simp add: insert_statement_def)

section \<open>The claims about scoring\<close>

text \<open>
  C1. \<^verbatim>\<open>calculate_score\<close> implements the stated algorithm over the fixed
  configuration. For nine counts in category order, each below the float range, it
  returns a result whose rows carry the specified targets, whose achievements are
  \<open>min(count / target * 100, 100)\<close>, whose category scores are achievement times weight,
  and whose total is the sum of the category scores. For counts exactly at the targets
  the total is 100 and the tier Gold; for counts all zero except 30 for QnA the QnA
  achievement is 50, its category score 11.5, the total 11.5 and the tier Unrated.
\<close>

theorem calculate_score_algorithm:
  "(\<forall>ns. length ns = 9 \<and> (\<forall>c \<in> set ns. c < 2 ^ 1024) \<longrightarrow>
      (\<exists>r. calculate_score (zip categories ns) = Inr r
         \<and> map d_category (details r) = categories
         \<and> map d_current (details r) = ns
         \<and> map d_target (details r) = spec_targets
         \<and> map d_achievement (details r) = map2 spec_achievement ns spec_targets
         \<and> map d_score (details r)
             = map2 spec_category_score (map d_achievement (details r)) spec_weights
         \<and> total_score r = foldl fadd 0 (map d_score (details r))))
   \<and> (\<exists>r. calculate_score (zip categories [60, 30, 20, 15, 12, 10, 15, 20, 8]) = Inr r
         \<and> total_score r = 100 \<and> tier r = Gold)
   \<and> (\<exists>r. calculate_score (zip categories [30, 0, 0, 0, 0, 0, 0, 0, 0]) = Inr r
         \<and> d_category (hd (details r)) = ''QnA'' \<and> d_achievement (hd (details r)) = 50
         \<and> d_score (hd (details r)) = 23 / 2
         \<and> total_score r = 23 / 2 \<and> tier r = Unrated)"
proof (intro conjI allI impI)
  fix ns :: "nat list"
  assume h: "length ns = 9 \<and> (\<forall>c \<in> set ns. c < 2 ^ 1024)"
  then have "length ns = 9" ..
  from length9 [OF this]
  obtain c1 c2 c3 c4 c5 c6 c7 c8 c9 where ns: "ns = [c1, c2, c3, c4, c5, c6, c7, c8, c9]"
    by (elim exE)
  from h have "\<forall>c \<in> set ns. c < 2 ^ 1024" ..
  then have "\<forall>c \<in> set [c1, c2, c3, c4, c5, c6, c7, c8, c9]. c < 2 ^ 1024"
    unfolding ns .
  from calculate_score_nine [OF this]
  show "\<exists>r. calculate_score (zip categories ns) = Inr r
         \<and> map d_category (details r) = categories
         \<and> map d_current (details r) = ns
         \<and> map d_target (details r) = spec_targets
         \<and> map d_achievement (details r) = map2 spec_achievement ns spec_targets
         \<and> map d_score (details r)
             = map2 spec_category_score (map d_achievement (details r)) spec_weights
         \<and> total_score r = foldl fadd 0 (map d_score (details r))"
    unfolding ns .
next
  show "\<exists>r. calculate_score (zip categories [60, 30, 20, 15, 12, 10, 15, 20, 8]) = Inr r
         \<and> total_score r = 100 \<and> tier r = Gold"
    by (rule gold_example)
next
  show "\<exists>r. calculate_score (zip categories [30, 0, 0, 0, 0, 0, 0, 0, 0]) = Inr r
         \<and> d_category (hd (details r)) = ''QnA'' \<and> d_achievement (hd (details r)) = 50
         \<and> d_score (hd (details r)) = 23 / 2
         \<and> total_score r = 23 / 2 \<and> tier r = Unrated"
    by (rule qna_example)
qed

theorem calculate_score_algorithm_witness:
  "length [30, 0, 20, 3, 12, 5, 0, 10, 4 :: nat] = 9
   \<and> list_all (\<lambda>c. c < 2 ^ 1024) [30, 0, 20, 3, 12, 5, 0, 10, 4 :: nat]
   \<and> (\<exists>r. calculate_score (zip categories [30, 0, 20, 3, 12, 5, 0, 10, 4]) = Inr r
         \<and> map d_current (details r) = [30, 0, 20, 3, 12, 5, 0, 10, 4]
         \<and> map d_target (details r) = spec_targets)"
proof -
  have h1: "length [30, 0, 20, 3, 12, 5, 0, 10, 4 :: nat] = 9" by simp
  have h2: "\<forall>c \<in> set [30, 0, 20, 3, 12, 5, 0, 10, 4 :: nat]. c < 2 ^ 1024" by simp
  from calculate_score_algorithm [THEN conjunct1, rule_format, OF conjI [OF h1 h2]]
  obtain r where R: "calculate_score (zip categories [30, 0, 20, 3, 12, 5, 0, 10, 4]) = Inr r
         \<and> map d_category (details r) = categories
         \<and> map d_current (details r) = [30, 0, 20, 3, 12, 5, 0, 10, 4]
         \<and> map d_target (details r) = spec_targets
         \<and> map d_achievement (details r)
             = map2 spec_achievement [30, 0, 20, 3, 12, 5, 0, 10, 4] spec_targets
         \<and> map d_score (details r)
             = map2 spec_category_score (map d_achievement (details r)) spec_weights
         \<and> total_score r = foldl fadd 0 (map d_score (details r))" ..
  have "calculate_score (zip categories [30, 0, 20, 3, 12, 5, 0, 10, 4]) = Inr r
         \<and> map d_current (details r) = [30, 0, 20, 3, 12, 5, 0, 10, 4]
         \<and> map d_target (details r) = spec_targets"
    by (rule conjI [OF R [THEN conjunct1]
          conjI [OF R [THEN conjunct2, THEN conjunct2, THEN conjunct1]
            R [THEN conjunct2, THEN conjunct2, THEN conjunct2, THEN conjunct1]]])
  then have e: "\<exists>r. calculate_score (zip categories [30, 0, 20, 3, 12, 5, 0, 10, 4]) = Inr r
         \<and> map d_current (details r) = [30, 0, 20, 3, 12, 5, 0, 10, 4]
         \<and> map d_target (details r) = spec_targets"
    by (rule exI)
  have h3: "list_all (\<lambda>c. c < 2 ^ 1024) [30, 0, 20, 3, 12, 5, 0, 10, 4 :: nat]" by simp
  show ?thesis by (rule conjI [OF h1 conjI [OF h3 e]])
qed

text \<open>
  C2. For every input that assigns a count to each of the nine categories, the total
  score that \<^verbatim>\<open>calculate_score\<close> returns lies between 0 and 100. The keys of a dict
  are distinct; whenever a total is returned it is in range, and a total is returned
  for all counts below the float range.
\<close>

theorem total_score_range:
  assumes "distinct (map fst current_data)"
  shows "(\<forall>r. calculate_score current_data = Inr r \<longrightarrow>
            0 \<le> total_score r \<and> total_score r \<le> 100)
       \<and> (set (map fst current_data) = set categories
            \<and> (\<forall>c \<in> set (map snd current_data). c < 2 ^ 1024) \<longrightarrow>
          (\<exists>r. calculate_score current_data = Inr r
             \<and> 0 \<le> total_score r \<and> total_score r \<le> 100))"
proof (rule conjI)
  show "\<forall>r. calculate_score current_data = Inr r \<longrightarrow>
            0 \<le> total_score r \<and> total_score r \<le> 100"
    by (intro allI impI) (rule calculate_score_range [OF _ assms])
next
  show "set (map fst current_data) = set categories
            \<and> (\<forall>c \<in> set (map snd current_data). c < 2 ^ 1024) \<longrightarrow>
          (\<exists>r. calculate_score current_data = Inr r
             \<and> 0 \<le> total_score r \<and> total_score r \<le> 100)"
  proof (rule impI)
    assume h: "set (map fst current_data) = set categories
      \<and> (\<forall>c \<in> set (map snd current_data). c < 2 ^ 1024)"
    then have k: "set (map fst current_data) \<subseteq> set categories"
      and c: "\<forall>c \<in> set (map snd current_data). c < 2 ^ 1024"
      by simp_all
    from score_loop_total [OF k c, of 0 "[]"]
    obtain tot ds where l: "score_loop current_data 0 [] = Inr (tot, ds)" by auto
    let ?r = "\<lparr>total_score = tot, tier = fst (tier_of tot), tier_color = snd (tier_of tot),
               details = ds, target_out = target_table\<rparr>"
    have r: "calculate_score current_data = Inr ?r" by (simp add: calculate_score_def l)
    from calculate_score_range [OF r assms]
    have "calculate_score current_data = Inr ?r \<and> 0 \<le> total_score ?r \<and> total_score ?r \<le> 100"
      using r by simp
    then show "\<exists>r. calculate_score current_data = Inr r
       \<and> 0 \<le> total_score r \<and> total_score r \<le> 100" by (rule exI)
  qed
qed

theorem total_score_range_witness:
  "distinct (map fst (zip categories [30, 0, 20, 3, 12, 5, 0, 10, 4 :: nat]))
   \<and> set (map fst (zip categories [30, 0, 20, 3, 12, 5, 0, 10, 4 :: nat])) = set categories
   \<and> list_all (\<lambda>c. c < 2 ^ 1024) (map snd (zip categories [30, 0, 20, 3, 12, 5, 0, 10, 4 :: nat]))
   \<and> (\<exists>r. calculate_score (zip categories [30, 0, 20, 3, 12, 5, 0, 10, 4]) = Inr r
         \<and> 0 \<le> total_score r \<and> total_score r \<le> 100)"
proof -
  let ?cd = "zip categories [30, 0, 20, 3, 12, 5, 0, 10, 4 :: nat]"
  have h1: "distinct (map fst ?cd)" by (simp add: categories_def)
  have h2: "set (map fst ?cd) = set categories" by (simp add: categories_def)
  have h3: "\<forall>c \<in> set (map snd ?cd). c < 2 ^ 1024" by (simp add: categories_def)
  have h4: "list_all (\<lambda>c. c < 2 ^ 1024) (map snd ?cd)" by (simp add: categories_def)
  from total_score_range [OF h1, THEN conjunct2, rule_format, OF conjI [OF h2 h3]]
  have e: "\<exists>r. calculate_score ?cd = Inr r \<and> 0 \<le> total_score r \<and> total_score r \<le> 100" .
  show ?thesis by (rule conjI [OF h1 conjI [OF h2 conjI [OF h4 e]]])
qed

text \<open>
  C3. The tier is decided from the total score by thresholds taken from high to low,
  the first match winning, with inclusive boundaries: 85 and above is Gold, from 75 up
  to 85 Silver, from 60 up to 75 Bronze, below 60 Unrated. The total 60.0 is Bronze and
  the float 59.999 is Unrated. The tier that \<^verbatim>\<open>calculate_score\<close> returns is the
  tier of the total it returns.
\<close>

theorem tier_thresholds:
  "(85 \<le> x \<longrightarrow> fst (tier_of x) = Gold)
   \<and> (75 \<le> x \<and> x < 85 \<longrightarrow> fst (tier_of x) = Silver)
   \<and> (60 \<le> x \<and> x < 75 \<longrightarrow> fst (tier_of x) = Bronze)
   \<and> (x < 60 \<longrightarrow> fst (tier_of x) = Unrated)
   \<and> fst (tier_of 60) = Bronze
   \<and> fst (tier_of (round_double (59999 / 1000))) = Unrated
   \<and> (\<forall>r. calculate_score current_data = Inr r \<longrightarrow> tier r = fst (tier_of (total_score r)))"
  using calculate_score_tier [of current_data] tier_float by (simp add: tier_of_def)

theorem tier_thresholds_witness:
  "(85::rat) \<le> 90 \<and> fst (tier_of 90) = Gold
   \<and> (75::rat) \<le> 80 \<and> (80::rat) < 85 \<and> fst (tier_of 80) = Silver
   \<and> (60::rat) \<le> 70 \<and> (70::rat) < 75 \<and> fst (tier_of 70) = Bronze
   \<and> (50::rat) < 60 \<and> fst (tier_of 50) = Unrated
   \<and> calculate_score [] = Inr \<lparr>total_score = 0, tier = Unrated, tier_color = ''#808080'',
        details = [], target_out = target_table\<rparr>
   \<and> tier \<lparr>total_score = 0, tier = Unrated, tier_color = ''#808080'',
        details = [], target_out = target_table\<rparr> = fst (tier_of 0)"
  using tier_thresholds [of 90 "[]"] tier_thresholds [of 80 "[]"] tier_thresholds [of 70 "[]"]
    tier_thresholds [of 50 "[]"]
  by (simp add: calculate_score_def tier_of_def)

text \<open>
  C5. \<^verbatim>\<open>calculate_score\<close> never divides by zero: whatever the counts, it does not
  raise \<^verbatim>\<open>ZeroDivisionError\<close>, because no target of the fixed table is 0 (the
  only divisor is a target of the table).
\<close>

theorem no_division_by_zero:
  "calculate_score current_data \<noteq> Inl ZeroDivisionError \<and> list_all (\<lambda>(k, t). t \<noteq> 0) target_table"
proof
  show "calculate_score current_data \<noteq> Inl ZeroDivisionError"
    using score_loop_no_zero_division [of current_data 0 "[]"]
    by (auto simp add: calculate_score_def split: sum.splits prod.splits)
  show "list_all (\<lambda>(k, t). t \<noteq> 0) target_table"
    by (simp add: target_table_def)
qed

theorem no_division_by_zero_witness:
  "calculate_score [(''QnA'', 0), (''tone'', 5)] \<noteq> Inl ZeroDivisionError"
  using no_division_by_zero [of "[(''QnA'', 0), (''tone'', 5)]"] by simp

section \<open>The claim about the shortfall ranking\<close>

text \<open>
  C4. The shortfall ranking, for the counts that \<^verbatim>\<open>get_current_data\<close> returns (the
  nine categories in table order): a category is in the ranking exactly when its count
  is below its target; each entry carries the shortfall and the priority
  \<open>((target - count) / target) * weight\<close> as the float arithmetic of the program
  computes it (\<open>spec_priority\<close>: the quotient rounded, then the product rounded); the
  ranking is in descending order of that float, and entries whose floats are equal are
  in the order of the category table; the first five entries at most are surfaced, the
  first three flagged urgent and the others important.
\<close>

theorem shortfall_ranking_spec:
  assumes "map fst current_data = categories"
  shows "\<exists>ranking. shortfall_ranking current_data = Inr ranking
    \<and> (\<forall>k c. (k, c) \<in> set current_data \<longrightarrow>
          ((\<exists>i \<in> set ranking. n_category i = k) \<longleftrightarrow> int c < the (target k)))
    \<and> (\<forall>i \<in> set ranking. \<exists>c. (n_category i, c) \<in> set current_data
          \<and> n_needed i = the (target (n_category i)) - int c
          \<and> n_priority i
              = spec_priority (the (target (n_category i))) (the (weights (n_category i))) c)
    \<and> distinct (map n_category ranking)
    \<and> sorted_wrt (\<lambda>a b. n_priority b \<le> n_priority a) ranking
    \<and> (\<forall>p. map n_category (filter (\<lambda>i. n_priority i = p) ranking)
          = filter (\<lambda>k. \<exists>i \<in> set ranking. n_category i = k \<and> n_priority i = p) categories)
    \<and> length (surfaced ranking) \<le> 5
    \<and> map snd (surfaced ranking) = take 5 ranking
    \<and> (\<forall>j < length (surfaced ranking).
          fst (surfaced ranking ! j) = (if j < 3 then Urgent else Important))"
proof -
  define U where "U = map spec_needed_item (filter spec_short current_data)"
  define R where "R = sort_reverse U"
  have r: "shortfall_ranking current_data = Inr R"
    unfolding R_def U_def by (rule shortfall_ranking_eq)
  have d: "distinct (map fst current_data)" unfolding assms by (rule distinct_categories)
  have setR: "set R = spec_needed_item ` {kc \<in> set current_data. spec_short kc}"
    unfolding R_def U_def by (simp add: sort_reverse_set)
  have keys: "\<And>k c. (k, c) \<in> set current_data \<Longrightarrow> k \<in> set categories"
    unfolding assms [symmetric] by (metis fst_conv image_eqI set_map)
  have uniq: "\<And>k c c'. (k, c) \<in> set current_data \<Longrightarrow> (k, c') \<in> set current_data \<Longrightarrow> c = c'"
    using d by (rule eq_key_imp_eq_value)
  have p1: "\<forall>k c. (k, c) \<in> set current_data \<longrightarrow>
          ((\<exists>i \<in> set R. n_category i = k) \<longleftrightarrow> int c < the (target k))"
  proof (intro allI impI)
    fix k c
    assume kc: "(k, c) \<in> set current_data"
    have "(\<exists>i \<in> set R. n_category i = k) \<longleftrightarrow> spec_short (k, c)"
    proof
      assume "\<exists>i \<in> set R. n_category i = k"
      then obtain kc' where a: "kc' \<in> set current_data" "spec_short kc'" "fst kc' = k"
        unfolding setR by (auto simp add: item_category)
      obtain c' where kc': "kc' = (k, c')" using a(3) by (cases kc') simp
      have "c' = c" using a(1) kc unfolding kc' by (rule uniq)
      then show "spec_short (k, c)" using a(2) kc' by simp
    next
      assume "spec_short (k, c)"
      then have "spec_needed_item (k, c) \<in> set R" unfolding setR using kc by blast
      then show "\<exists>i \<in> set R. n_category i = k" by (rule bexI [rotated]) (simp add: item_category)
    qed
    then show "(\<exists>i \<in> set R. n_category i = k) \<longleftrightarrow> int c < the (target k)"
      using known_category [OF keys [OF kc]] by simp
  qed
  have p2: "\<forall>i \<in> set R. \<exists>c. (n_category i, c) \<in> set current_data
          \<and> n_needed i = the (target (n_category i)) - int c
          \<and> n_priority i
              = spec_priority (the (target (n_category i))) (the (weights (n_category i))) c"
  proof
    fix i
    assume "i \<in> set R"
    then obtain k c where "(k, c) \<in> set current_data" and "i = spec_needed_item (k, c)"
      unfolding setR by auto
    then show "\<exists>c. (n_category i, c) \<in> set current_data
          \<and> n_needed i = the (target (n_category i)) - int c
          \<and> n_priority i
              = spec_priority (the (target (n_category i))) (the (weights (n_category i))) c"
      by (intro exI [of _ c]) (simp add: spec_needed_item_def)
  qed
  have catU: "map n_category U = map fst (filter spec_short current_data)"
    unfolding U_def by (simp add: item_category comp_def)
  have dU: "distinct (map n_category U)" unfolding catU using d by (rule distinct_map_filter)
  have p3: "distinct (map n_category R)"
    using dU unfolding R_def sort_reverse_def by (simp add: distinct_map)
  have p4: "sorted_wrt (\<lambda>a b. n_priority b \<le> n_priority a) R"
    unfolding R_def by (rule sort_reverse_sorted)
  have p5: "\<forall>p. map n_category (filter (\<lambda>i. n_priority i = p) R)
          = filter (\<lambda>k. \<exists>i \<in> set R. n_category i = k \<and> n_priority i = p) categories"
  proof
    fix p
    let ?P = "\<lambda>kc. spec_short kc \<and> n_priority (spec_needed_item kc) = p"
    have "map n_category (filter (\<lambda>i. n_priority i = p) R)
        = map n_category (filter (\<lambda>i. n_priority i = p) U)"
      unfolding R_def sort_reverse_stable ..
    also have "\<dots> = map fst (filter ?P current_data)"
      unfolding U_def by (simp add: filter_map comp_def item_category conj_commute)
    also have "\<dots> = filter (\<lambda>k. \<exists>c. (k, c) \<in> set current_data \<and> ?P (k, c)) (map fst current_data)"
      using d by (rule map_fst_filter_distinct)
    also have "\<dots> = filter (\<lambda>k. \<exists>i \<in> set R. n_category i = k \<and> n_priority i = p) (map fst current_data)"
    proof (rule filter_cong [OF refl])
      fix k
      show "(\<exists>c. (k, c) \<in> set current_data \<and> ?P (k, c))
          = (\<exists>i \<in> set R. n_category i = k \<and> n_priority i = p)"
        unfolding setR by (auto simp add: item_category)
    qed
    finally show "map n_category (filter (\<lambda>i. n_priority i = p) R)
          = filter (\<lambda>k. \<exists>i \<in> set R. n_category i = k \<and> n_priority i = p) categories"
      unfolding assms .
  qed
  have p6: "length (surfaced R) \<le> 5" by (rule surfaced_length)
  have p7: "map snd (surfaced R) = take 5 R" by (rule surfaced_items)
  have p8: "\<forall>j < length (surfaced R). fst (surfaced R ! j) = (if j < 3 then Urgent else Important)"
    by (intro allI impI) (rule surfaced_flags)
  show ?thesis
    by (rule exI [of _ R]) (rule conjI r p1 p2 p3 p4 p5 p6 p7 p8)+
qed

theorem shortfall_ranking_spec_witness:
  "map fst (zip categories [30, 0, 20, 3, 12, 5, 0, 10, 4 :: nat]) = categories
   \<and> (\<exists>ranking. shortfall_ranking (zip categories [30, 0, 20, 3, 12, 5, 0, 10, 4]) = Inr ranking
        \<and> map n_category ranking
            = [''workout guideline'', ''QnA'', ''philosophy'', ''workout examples'', ''tone'',
               ''meal examples'', ''feedback'']
        \<and> sorted_wrt (\<lambda>a b. n_priority b \<le> n_priority a) ranking
        \<and> map (\<lambda>(f, i). (f, n_category i)) (surfaced ranking)
            = [(Urgent, ''workout guideline''), (Urgent, ''QnA''), (Urgent, ''philosophy''),
               (Important, ''workout examples''), (Important, ''tone'')])"
proof -
  let ?cd = "zip categories [30, 0, 20, 3, 12, 5, 0, 10, 4 :: nat]"
  have h: "map fst ?cd = categories" by (simp add: categories_def)
  from shortfall_ranking_spec [OF h]
  obtain ranking where r: "shortfall_ranking ?cd = Inr ranking"
    and s: "sorted_wrt (\<lambda>a b. n_priority b \<le> n_priority a) ranking"
    by (elim exE conjE) (rule that)
  have "Inr ranking = shortfall_ranking ?cd" using r by (rule sym)
  also note ranking_example
  finally have e: "ranking =
         [\<lparr>n_category = ''workout guideline'', n_needed = 30,
            n_priority = 3242591731706757 / 18014398509481984\<rparr>,
          \<lparr>n_category = ''QnA'', n_needed = 30,
            n_priority = 8286623314361713 / 72057594037927936\<rparr>,
          \<lparr>n_category = ''philosophy'', n_needed = 12,
            n_priority = 5188146770730811 / 72057594037927936\<rparr>,
          \<lparr>n_category = ''workout examples'', n_needed = 10,
            n_priority = 3602879701896397 / 72057594037927936\<rparr>,
          \<lparr>n_category = ''tone'', n_needed = 4,
            n_priority = 3602879701896397 / 72057594037927936\<rparr>,
          \<lparr>n_category = ''meal examples'', n_needed = 15,
            n_priority = 5764607523034235 / 144115188075855872\<rparr>,
          \<lparr>n_category = ''feedback'', n_needed = 5,
            n_priority = 5764607523034235 / 288230376151711744\<rparr>]"
    by (rule Inr_inject)
  have n: "map n_category ranking
            = [''workout guideline'', ''QnA'', ''philosophy'', ''workout examples'', ''tone'',
               ''meal examples'', ''feedback'']"
    unfolding e by simp
  have f: "map (\<lambda>(f, i). (f, n_category i)) (surfaced ranking)
            = [(Urgent, ''workout guideline''), (Urgent, ''QnA''), (Urgent, ''philosophy''),
               (Important, ''workout examples''), (Important, ''tone'')]"
    unfolding e by (rule surfaced_example)
  show ?thesis using h r n s f by (intro conjI exI [of _ ranking])
qed

text \<open>
  The order of two categories whose priorities are equal in exact arithmetic is decided
  by the rounding. With 15 of 30 workout guidelines and 2 of 20 workout examples both
  priorities are \<open>9/100\<close> exactly, workout guideline comes first in the table, and the
  ranking has workout examples first: \<open>0.5 * 0.18\<close> is the float nearest to 0.09 and
  \<open>0.9 * 0.1\<close> is the next float above it.
\<close>

theorem ranking_tie_broken_by_rounding:
  "exact_priority 30 (18 / 100) 15 = 9 / 100
   \<and> exact_priority 20 (10 / 100) 2 = 9 / 100
   \<and> shortfall_ranking (zip categories [60, 15, 20, 15, 12, 10, 15, 2, 8]) =
       Inr [\<lparr>n_category = ''workout examples'', n_needed = 18,
              n_priority = 6485183463413515 / 72057594037927936\<rparr>,
            \<lparr>n_category = ''workout guideline'', n_needed = 15,
              n_priority = 3242591731706757 / 36028797018963968\<rparr>]
   \<and> categories ! 1 = ''workout guideline'' \<and> categories ! 7 = ''workout examples''"
proof -
  have r: "shortfall_ranking (zip categories [60, 15, 20, 15, 12, 10, 15, 2, 8]) =
       Inr [\<lparr>n_category = ''workout examples'', n_needed = 18,
              n_priority = 6485183463413515 / 72057594037927936\<rparr>,
            \<lparr>n_category = ''workout guideline'', n_needed = 15,
              n_priority = 3242591731706757 / 36028797018963968\<rparr>]"
    unfolding shortfall_ranking_eq tie_needed by (simp add: sort_reverse_def)
  have e1: "exact_priority 30 (18 / 100) 15 = 9 / 100" by (simp add: exact_priority_def)
  have e2: "exact_priority 20 (10 / 100) 2 = 9 / 100" by (simp add: exact_priority_def)
  have t1: "categories ! 1 = ''workout guideline''" by (simp add: categories_def)
  have t2: "categories ! 7 = ''workout examples''" by (simp add: categories_def)
  show ?thesis using e1 e2 r t1 t2 by (intro conjI)
qed

section \<open>The claims about the store operations\<close>

text \<open>
  C9, at \<^verbatim>\<open>get_current_data("tr_001")\<close> for a trainer with two questions and one
  philosophy note, when the count query for workout guidelines fails. The category
  before it reads its count and the failed one reads 0, but so does every category
  after it: the philosophy note is counted as 0. The handler of the loop does not roll
  back, the transaction stays aborted and each later count query raises. With no
  failure the same call counts the note.
\<close>

theorem failed_count_query_zeroes_later_counts:
  "fst (get_current_data third_call_fails_env sample_world ''tr_001'')
     = Inr [(''QnA'', 2), (''workout guideline'', 0), (''diet guideline'', 0),
            (''philosophy'', 0), (''injury'', 0), (''feedback'', 0), (''meal examples'', 0),
            (''workout examples'', 0), (''tone'', 0)]
   \<and> fst (get_current_data healthy_env sample_world ''tr_001'')
     = Inr [(''QnA'', 2), (''workout guideline'', 0), (''diet guideline'', 0),
            (''philosophy'', 1), (''injury'', 0), (''feedback'', 0), (''meal examples'', 0),
            (''workout examples'', 0), (''tone'', 0)]"
proof -
  let ?w1 = "sample_world\<lparr>db_log := [Execute SelectOne]\<rparr>"
  let ?w2 = "?w1\<lparr>db_log := db_log ?w1 @ [Execute (SelectCount ''data_trainer_qna'' ''tr_001'')]\<rparr>"
  let ?rest = "[(''diet guideline'', ''data_trainer_diet_guideline''),
               (''philosophy'', ''data_trainer_philosophy''),
               (''injury'', ''data_trainer_injury''),
               (''feedback'', ''data_trainer_feedback''),
               (''meal examples'', ''data_trainer_meal_examples''),
               (''workout examples'', ''data_trainer_workout_examples''),
               (''tone'', ''data_trainer_tones_raw'')]"
  have u1: "conn_state ?w1 = Usable" by simp
  have u2: "conn_state ?w2 = Usable" by simp
  have f1: "db_fault third_call_fails_env (length (db_log ?w1)) = None"
    by (simp add: third_call_fails_env_def)
  have f2: "db_fault third_call_fails_env (length (db_log ?w2)) = Some DatabaseError"
    by (simp add: third_call_fails_env_def)
  have "fst (get_current_data third_call_fails_env sample_world ''tr_001'')
          = Inr (fst (count_loop third_call_fails_env ?w1 ''tr_001'' tables []))"
    using third_call_fails_sample_connection by (rule get_current_data_connected)
  also have "count_loop third_call_fails_env ?w1 ''tr_001'' tables []
          = count_loop third_call_fails_env ?w2 ''tr_001''
              ((''workout guideline'', ''data_trainer_workout_guideline'') # ?rest)
              ([] @ [(''QnA'', fetch_count ?w1 ''data_trainer_qna'' ''tr_001'')])"
    unfolding tables_def using u1 f1 by (rule count_loop_success)
  also have "fst \<dots> = ([] @ [(''QnA'', fetch_count ?w1 ''data_trainer_qna'' ''tr_001'')])
          @ (''workout guideline'', 0) # map (\<lambda>(name, t). (name, 0)) ?rest"
    using u2 f2 by (rule count_loop_failure)
  finally have a: "fst (get_current_data third_call_fails_env sample_world ''tr_001'')
     = Inr [(''QnA'', 2), (''workout guideline'', 0), (''diet guideline'', 0),
            (''philosophy'', 0), (''injury'', 0), (''feedback'', 0), (''meal examples'', 0),
            (''workout examples'', 0), (''tone'', 0)]"
    by (simp add: sample_counts)
  have "fst (get_current_data healthy_env sample_world ''tr_001'')
          = Inr (fst (count_loop healthy_env ?w1 ''tr_001'' tables []))"
    using healthy_sample_connection by (rule get_current_data_connected)
  then have b: "fst (get_current_data healthy_env sample_world ''tr_001'')
     = Inr [(''QnA'', 2), (''workout guideline'', 0), (''diet guideline'', 0),
            (''philosophy'', 1), (''injury'', 0), (''feedback'', 0), (''meal examples'', 0),
            (''workout examples'', 0), (''tone'', 0)]"
    by (simp add: tables_def count_loop_success sample_counts del: count_loop.simps(2))
  show ?thesis using a b by (rule conjI)
qed

text \<open>
  C6, at \<^verbatim>\<open>add_data("tr_001", "unknown", {})\<close>. \<^verbatim>\<open>delete_data\<close> and
  \<^verbatim>\<open>update_data\<close> refuse the unknown category and \<^verbatim>\<open>get_category_data\<close> gives
  the empty frame, but \<^verbatim>\<open>add_data\<close> returns success: no branch of its chain matches,
  so it sends no \<^verbatim>\<open>INSERT\<close>, commits and reports that the data was added.
\<close>

theorem add_data_accepts_unknown_category:
  "fst (add_data healthy_env sample_world ''tr_001'' ''unknown'' []) = Inr (True, Added)
   \<and> db_log (snd (add_data healthy_env sample_world ''tr_001'' ''unknown'' []))
       = [Execute SelectOne, Commit]
   \<and> fst (delete_data healthy_env sample_world ''unknown'' 2) = Inr (False, InvalidCategory)
   \<and> fst (update_data healthy_env sample_world ''unknown'' 2 [(''title'', Str ''t'')])
       = Inr (False, InvalidCategory)
   \<and> fst (get_category_data healthy_env sample_world ''tr_001'' ''unknown'') = []"
proof -
  have a: "add_data healthy_env sample_world ''tr_001'' ''unknown'' []
             = (Inr (True, Added),
                sample_world\<lparr>db_log := [Execute SelectOne]\<rparr>
                  \<lparr>db_log := db_log (sample_world\<lparr>db_log := [Execute SelectOne]\<rparr>) @ [Commit],
                   committed := working (sample_world\<lparr>db_log := [Execute SelectOne]\<rparr>)\<rparr>)"
    by (rule add_data_unknown [OF healthy_sample_connection unknown_example])
       (simp add: healthy_env_def)
  have d: "delete_data healthy_env sample_world ''unknown'' 2
             = (Inr (False, InvalidCategory), sample_world\<lparr>db_log := [Execute SelectOne]\<rparr>)"
    by (rule delete_data_unknown [OF healthy_sample_connection unknown_example])
  have u: "update_data healthy_env sample_world ''unknown'' 2 [(''title'', Str ''t'')]
             = (Inr (False, InvalidCategory), sample_world\<lparr>db_log := [Execute SelectOne]\<rparr>)"
    by (rule update_data_unknown [OF healthy_sample_connection unknown_example])
  have g: "fst (get_category_data healthy_env sample_world ''tr_001'' ''unknown'') = []"
    by (rule get_category_data_unknown [OF unknown_example]) (simp add: sample_world_def)
  show ?thesis by (simp add: a d u g)
qed

text \<open>
  C10. With a connection, a category of the table and a \<^verbatim>\<open>DELETE\<close> and a
  \<^verbatim>\<open>COMMIT\<close> that do not fail, \<^verbatim>\<open>delete_data\<close> returns \<^verbatim>\<open>True\<close> and the deletion
  message for every row id. When no row of the table has the id, the table is left as
  it was: nothing in the result tells the two cases apart.
\<close>

theorem delete_missing_row_succeeds:
  assumes "get_safe_connection e w = (Inr (), w1)"
    and "map_of tables category = Some t"
    and "db_fault e (length (db_log w1)) = None"
    and "db_fault e (Suc (length (db_log w1))) = None"
    and "\<forall>r \<in> set (working w1 t). r_id r \<noteq> data_id"
  shows "fst (delete_data e w category data_id) = Inr (True, Deleted)
         \<and> working (snd (delete_data e w category data_id)) = working w1
         \<and> committed (snd (delete_data e w category data_id)) = working w1
         \<and> (\<forall>i. fst (delete_data e w category i) = fst (delete_data e w category data_id))"
proof -
  have f: "filter (\<lambda>r. r_id r \<noteq> data_id) (working w1 t) = working w1 t"
    using assms(5) by (simp add: filter_id_conv)
  have u: "(working w1)(t := working w1 t) = working w1" by (rule fun_upd_triv)
  have d: "delete_data e w category i
           = (Inr (True, Deleted),
              w1\<lparr>working := (working w1)(t := filter (\<lambda>r. r_id r \<noteq> i) (working w1 t)),
                 db_log := db_log w1 @ [Execute (Delete t i), Commit],
                 committed := (working w1)(t := filter (\<lambda>r. r_id r \<noteq> i) (working w1 t)),
                 cache := []\<rparr>)" for i
    by (rule delete_data_ok [OF assms(1-4)])
  show ?thesis by (simp add: d f u)
qed

theorem delete_missing_row_succeeds_witness:
  "map_of tables ''QnA'' = Some ''data_trainer_qna''
   \<and> list_all (\<lambda>r. r_id r \<noteq> 99) (sample_rows ''data_trainer_qna'')
   \<and> fst (delete_data healthy_env sample_world ''QnA'' 99) = Inr (True, Deleted)
   \<and> fst (delete_data healthy_env sample_world ''QnA'' 2) = Inr (True, Deleted)
   \<and> committed (snd (delete_data healthy_env sample_world ''QnA'' 99)) = sample_rows
   \<and> map r_id (committed (snd (delete_data healthy_env sample_world ''QnA'' 2)) ''data_trainer_qna'')
       = [1]"
proof -
  let ?w1 = "sample_world\<lparr>db_log := [Execute SelectOne]\<rparr>"
  have t: "map_of tables ''QnA'' = Some ''data_trainer_qna''" by (simp add: tables_def)
  have o1: "db_fault healthy_env (length (db_log ?w1)) = None" by (simp add: healthy_env_def)
  have o2: "db_fault healthy_env (Suc (length (db_log ?w1))) = None" by (simp add: healthy_env_def)
  have m: "\<forall>r \<in> set (working ?w1 ''data_trainer_qna''). r_id r \<noteq> 99"
    by (simp add: sample_world_def sample_rows_def)
  have l: "list_all (\<lambda>r. r_id r \<noteq> 99) (sample_rows ''data_trainer_qna'')"
    by (simp add: sample_rows_def)
  note th = delete_missing_row_succeeds [OF healthy_sample_connection t o1 o2 m]
  have r99: "fst (delete_data healthy_env sample_world ''QnA'' 99) = Inr (True, Deleted)"
    by (rule th [THEN conjunct1])
  have c99: "committed (snd (delete_data healthy_env sample_world ''QnA'' 99)) = sample_rows"
    using th [THEN conjunct2, THEN conjunct2, THEN conjunct1] by (simp add: sample_world_def)
  have r1: "fst (delete_data healthy_env sample_world ''QnA'' 2) = Inr (True, Deleted)"
    using th [THEN conjunct2, THEN conjunct2, THEN conjunct2, rule_format, of 2] r99 by simp
  have c1: "map r_id (committed (snd (delete_data healthy_env sample_world ''QnA'' 2))
              ''data_trainer_qna'') = [1]"
    unfolding delete_data_ok [OF healthy_sample_connection t o1 o2]
    by (simp add: sample_world_def sample_rows_def)
  show ?thesis using t l r99 r1 c99 c1 by (intro conjI)
qed

text \<open>
  C7, at \<^verbatim>\<open>add_data("tr_001", "philosophy", {"content": "c2"})\<close> after the philosophy
  notes of the trainer have been listed. The insert succeeds and is committed: the table
  holds the rows 3 and 4. \<^verbatim>\<open>add_data\<close> leaves the read cache as it was, so the
  next listing is the cached one, with row 3 only. \<^verbatim>\<open>delete_data\<close> and
  \<^verbatim>\<open>update_data\<close> in the same world empty the cache.
\<close>

theorem add_data_leaves_cache_stale:
  "fst (add_data healthy_env listed_world ''tr_001'' ''philosophy'' [(''content'', ''c2'')])
     = Inr (True, Added)
   \<and> snd (add_data healthy_env listed_world ''tr_001'' ''philosophy'' [(''content'', ''c2'')])
     = added_world
   \<and> map r_id (committed added_world ''data_trainer_philosophy'') = [3, 4]
   \<and> cache added_world = cache listed_world
   \<and> map fst (cache added_world) = [(''tr_001'', ''philosophy'')]
   \<and> map r_id (fst (get_category_data healthy_env added_world ''tr_001'' ''philosophy'')) = [3]
   \<and> fst (delete_data healthy_env listed_world ''philosophy'' 3) = Inr (True, Deleted)
   \<and> cache (snd (delete_data healthy_env listed_world ''philosophy'' 3)) = []
   \<and> fst (update_data healthy_env listed_world ''philosophy'' 3 [(''content'', Str ''c3'')])
     = Inr (True, Updated)
   \<and> cache (snd (update_data healthy_env listed_world ''philosophy'' 3 [(''content'', Str ''c3'')]))
     = []"
proof -
  have a1: "fst (add_data healthy_env listed_world ''tr_001'' ''philosophy'' [(''content'', ''c2'')])
     = Inr (True, Added)" by (simp add: add_note)
  have a2: "snd (add_data healthy_env listed_world ''tr_001'' ''philosophy'' [(''content'', ''c2'')])
     = added_world" by (simp add: add_note)
  have k: "map fst (cache added_world) = [(''tr_001'', ''philosophy'')]"
    by (simp add: added_world_cache listed_cache)
  have g: "map r_id (fst (get_category_data healthy_env added_world ''tr_001'' ''philosophy'')) = [3]"
    by (simp add: get_category_data_def added_world_cache listed_cache)
  have o1: "db_fault healthy_env n = None" for n by simp
  have d: "fst (delete_data healthy_env listed_world ''philosophy'' 3) = Inr (True, Deleted)"
    by (simp add: delete_data_ok [OF listed_connection philosophy_table o1 o1])
  have dc: "cache (snd (delete_data healthy_env listed_world ''philosophy'' 3)) = []"
    using d by (rule delete_data_clears_cache)
  have u: "fst (update_data healthy_env listed_world ''philosophy'' 3 [(''content'', Str ''c3'')])
     = Inr (True, Updated)"
    unfolding update_data_def listed_connection
    by (simp add: philosophy_table execute_def commit_def listed_world_eq sample_world_def)
  have uc: "cache (snd (update_data healthy_env listed_world ''philosophy'' 3 [(''content'', Str ''c3'')]))
     = []"
    using u by (rule update_data_clears_cache)
  show ?thesis
    using a1 a2 added_world_table added_world_cache k g d dc u uc by (intro conjI)
qed

text \<open>
  C8, as the code has it. After the insert of the tone sample has committed, whatever
  the analysis request does (it raises or times out, or the backend answers with any
  status), \<^verbatim>\<open>add_data\<close> returns \<^verbatim>\<open>True\<close> and leaves the database as the commit
  left it: no rollback, the request is the only thing that has happened since. The
  message is the one of a finished analysis exactly when the status is 200. The request
  after the insert has a timeout of 30 seconds. \<^verbatim>\<open>trigger_tone_analyze\<close> sends the
  request with a timeout of 15 seconds and returns \<^verbatim>\<open>True\<close> exactly when the status
  is 200.
\<close>

theorem tone_analysis_failure_is_soft:
  assumes "get_safe_connection e w = (Inr (), w1)"
    and "map_of data_dict ''raw_data'' = Some raw_data"
    and "execute e w1 (Insert ''data_trainer_tones_raw''
                         [''trainer_id'', ''trainer_name'', ''raw_data'']
                         [Str trainer_id, Str (get_default data_dict ''trainer_name'' []),
                          Str raw_data]) = (Inr (), w2)"
    and "commit e w2 = (Inr (), w3)"
  shows "(\<exists>m. add_data e w trainer_id ''tone'' data_dict
              = (Inr (True, m), w3\<lparr>http_log := http_log w3 @ [(trainer_id, 30)]\<rparr>)
            \<and> (m = ToneAddedAnalyzed) =
                (case http_reply e (length (http_log w3)) of
                   Response status_code text \<Rightarrow> status_code = 200
                 | HttpRaises \<Rightarrow> False))
         \<and> (\<exists>m'. trigger_tone_analyze e w' trainer_id
              = ((case http_reply e (length (http_log w')) of
                    Response status_code text \<Rightarrow> status_code = 200
                  | HttpRaises \<Rightarrow> False, m'),
                 w'\<lparr>http_log := http_log w' @ [(trainer_id, 15)]\<rparr>))"
proof (rule conjI)
  let ?r = "http_reply e (length (http_log w3))"
  let ?w4 = "w3\<lparr>http_log := http_log w3 @ [(trainer_id, 30)]\<rparr>"
  have p: "post_analyze_tone e w3 trainer_id 30 = (?r, ?w4)"
    by (simp add: post_analyze_tone_def)
  have s: "subscript data_dict ''raw_data'' = Inr raw_data"
    using assms(2) by (simp add: subscript_def)
  have t: "add_tone e w1 trainer_id data_dict =
            ((True, case ?r of
                      Response status_code text \<Rightarrow>
                        if status_code = 200 then ToneAddedAnalyzed
                        else ToneSavedAnalysisFailed text
                    | HttpRaises \<Rightarrow> ToneSavedCallFailed RequestException), ?w4)"
    by (simp add: add_tone_def s assms(3) assms(4) p split: http_outcome.splits)
  have a: "add_data e w trainer_id ''tone'' data_dict =
            (Inr (True, case ?r of
                      Response status_code text \<Rightarrow>
                        if status_code = 200 then ToneAddedAnalyzed
                        else ToneSavedAnalysisFailed text
                    | HttpRaises \<Rightarrow> ToneSavedCallFailed RequestException), ?w4)"
    by (simp add: add_data_def assms(1) tone_statement t)
  show "\<exists>m. add_data e w trainer_id ''tone'' data_dict = (Inr (True, m), ?w4)
            \<and> (m = ToneAddedAnalyzed) =
                (case ?r of Response status_code text \<Rightarrow> status_code = 200
                 | HttpRaises \<Rightarrow> False)"
    unfolding a by (cases ?r) simp_all
next
  let ?r = "http_reply e (length (http_log w'))"
  show "\<exists>m'. trigger_tone_analyze e w' trainer_id
              = ((case ?r of Response status_code text \<Rightarrow> status_code = 200
                  | HttpRaises \<Rightarrow> False, m'),
                 w'\<lparr>http_log := http_log w' @ [(trainer_id, 15)]\<rparr>)"
    by (cases ?r) (simp_all add: trigger_tone_analyze_def post_analyze_tone_def)
qed

theorem tone_analysis_failure_is_soft_witness:
  "(\<exists>m. fst (add_data backend_down_env sample_world ''tr_001'' ''tone'' [(''raw_data'', ''hello'')])
          = Inr (True, m) \<and> m \<noteq> ToneAddedAnalyzed)
   \<and> http_log (snd (add_data backend_down_env sample_world ''tr_001'' ''tone''
                         [(''raw_data'', ''hello'')])) = [(''tr_001'', 30)]
   \<and> map r_id (committed (snd (add_data backend_down_env sample_world ''tr_001'' ''tone''
                                   [(''raw_data'', ''hello'')])) ''data_trainer_tones_raw'') = [4]
   \<and> db_log (snd (add_data backend_down_env sample_world ''tr_001'' ''tone''
                       [(''raw_data'', ''hello'')]))
       = [Execute SelectOne,
          Execute (Insert ''data_trainer_tones_raw'' [''trainer_id'', ''trainer_name'', ''raw_data'']
                     [Str ''tr_001'', Str [], Str ''hello'']),
          Commit]
   \<and> (\<exists>m'. trigger_tone_analyze backend_down_env sample_world ''tr_001''
          = ((False, m'), sample_world\<lparr>http_log := [(''tr_001'', 15)]\<rparr>))"
proof -
  let ?e = backend_down_env
  let ?d = "[(''raw_data'', ''hello'')]"
  let ?s = "Insert ''data_trainer_tones_raw'' [''trainer_id'', ''trainer_name'', ''raw_data'']
              [Str ''tr_001'', Str (get_default ?d ''trainer_name'' []), Str ''hello'']"
  let ?w1 = "sample_world\<lparr>db_log := [Execute SelectOne]\<rparr>"
  let ?w2 = "apply_stmt ?s (?w1\<lparr>db_log := db_log ?w1 @ [Execute ?s]\<rparr>)"
  let ?w3 = "?w2\<lparr>db_log := db_log ?w2 @ [Commit], committed := working ?w2\<rparr>"
  have h1: "get_safe_connection ?e sample_world = (Inr (), ?w1)"
    by (simp add: get_safe_connection_def get_db_connection_def execute_def backend_down_env_def
          sample_world_def)
  have h2: "map_of ?d ''raw_data'' = Some ''hello''" by simp
  have h3: "execute ?e ?w1 ?s = (Inr (), ?w2)"
    by (simp add: execute_def backend_down_env_def Let_def sample_state)
  have h4: "commit ?e ?w2 = (Inr (), ?w3)"
    by (simp add: commit_def backend_down_env_def Let_def sample_state)
  note th = tone_analysis_failure_is_soft [OF h1 h2 h3 h4, of sample_world]
  from th [THEN conjunct1]
  obtain m where a: "add_data ?e sample_world ''tr_001'' ''tone'' ?d
                       = (Inr (True, m), ?w3\<lparr>http_log := http_log ?w3 @ [(''tr_001'', 30)]\<rparr>)"
    and m: "(m = ToneAddedAnalyzed) =
              (case http_reply ?e (length (http_log ?w3)) of
                 Response status_code text \<Rightarrow> status_code = 200 | HttpRaises \<Rightarrow> False)"
    by (elim exE conjE) (rule that)
  from th [THEN conjunct2]
  obtain m' where t: "trigger_tone_analyze ?e sample_world ''tr_001''
              = ((case http_reply ?e (length (http_log sample_world)) of
                    Response status_code text \<Rightarrow> status_code = 200
                  | HttpRaises \<Rightarrow> False, m'),
                 sample_world\<lparr>http_log := http_log sample_world @ [(''tr_001'', 15)]\<rparr>)" ..
  have c1: "\<exists>m. fst (add_data ?e sample_world ''tr_001'' ''tone'' ?d) = Inr (True, m)
              \<and> m \<noteq> ToneAddedAnalyzed"
  proof (intro exI [of _ m] conjI)
    show "fst (add_data ?e sample_world ''tr_001'' ''tone'' ?d) = Inr (True, m)" by (simp add: a)
    show "m \<noteq> ToneAddedAnalyzed" using m by (simp add: backend_down_env_def)
  qed
  have c2: "http_log (snd (add_data ?e sample_world ''tr_001'' ''tone'' ?d)) = [(''tr_001'', 30)]"
    unfolding a by (simp add: sample_world_def)
  have c3: "map r_id (committed (snd (add_data ?e sample_world ''tr_001'' ''tone'' ?d))
              ''data_trainer_tones_raw'') = [4]"
    unfolding a by (simp add: sample_world_def sample_rows_def)
  have c4: "db_log (snd (add_data ?e sample_world ''tr_001'' ''tone'' ?d))
       = [Execute SelectOne,
          Execute (Insert ''data_trainer_tones_raw'' [''trainer_id'', ''trainer_name'', ''raw_data'']
                     [Str ''tr_001'', Str [], Str ''hello'']),
          Commit]"
    unfolding a by (simp add: get_default_def)
  have c5: "\<exists>m'. trigger_tone_analyze ?e sample_world ''tr_001''
          = ((False, m'), sample_world\<lparr>http_log := [(''tr_001'', 15)]\<rparr>)"
  proof (rule exI [of _ m'])
    show "trigger_tone_analyze ?e sample_world ''tr_001''
          = ((False, m'), sample_world\<lparr>http_log := [(''tr_001'', 15)]\<rparr>)"
      unfolding t by (simp add: backend_down_env_def sample_world_def)
  qed
  show ?thesis using c1 c2 c3 c4 c5 by (intro conjI)
qed

text \<open>
  A status of 204 is a 2xx status, and \<^verbatim>\<open>trigger_tone_analyze\<close> reports a failure
  for it: the test is \<^verbatim>\<open>status_code == 200\<close>.
\<close>

theorem status_204_is_reported_as_failure:
  "http_reply reply_204_env (length (http_log sample_world)) = Response 204 []
   \<and> fst (trigger_tone_analyze reply_204_env sample_world ''tr_001'')
       = (False, ToneAnalysisFailed [])"
  by (simp add: trigger_tone_analyze_def post_analyze_tone_def reply_204_env_def)

end
